theory Spec2Isabelle
  imports Complex_Main "HOL-Library.Sublist" "HOL-Library.Word"
begin

section \<open>JavaScript values used by \<open>App.tsx\<close>\<close>

subsection \<open>Strings\<close>

text \<open>
  A JavaScript string is a sequence of UTF-16 code units. The model is a HOL \<open>string\<close>,
  whose characters are read as the code units U+0000 to U+00FF; on that range
  \<open>String.prototype.toLowerCase\<close> maps one code unit to one code unit and the white space
  of \<open>String.prototype.trim\<close> is TAB, LF, VT, FF, CR, SP and NBSP. Code units above U+00FF
  are outside the model.
\<close>

definition isWhiteSpace :: "char \<Rightarrow> bool" where
  "isWhiteSpace c = ((of_char c :: nat) \<in> {9, 10, 11, 12, 13, 32, 160})"

definition trim :: "string \<Rightarrow> string" where
  "trim s = rev (dropWhile isWhiteSpace (rev (dropWhile isWhiteSpace s)))"

text \<open>\<open>if (s)\<close> and \<open>!s\<close> on a string: only the empty string is falsy.\<close>

definition truthy :: "string \<Rightarrow> bool" where
  "truthy s = (s \<noteq> [])"

definition toLowerChar :: "char \<Rightarrow> char" where
  "toLowerChar c = (let n = (of_char c :: nat) in
     if (65 \<le> n \<and> n \<le> 90) \<or> (192 \<le> n \<and> n \<le> 222 \<and> n \<noteq> 215)
     then char_of (n + 32) else c)"

definition toLowerCase :: "string \<Rightarrow> string" where
  "toLowerCase s = map toLowerChar s"

text \<open>\<open>hay.includes(needle)\<close>: \<open>needle\<close> occurs in \<open>hay\<close> at some position.\<close>

fun str_includes :: "string \<Rightarrow> string \<Rightarrow> bool" where
  "str_includes [] needle = (needle = [])"
| "str_includes (c # cs) needle = (prefix needle (c # cs) \<or> str_includes cs needle)"

text \<open>\<open>s.split(sep)\<close> for a separator of one code unit; the result is never empty.\<close>

fun split_on :: "char \<Rightarrow> string \<Rightarrow> string list" where
  "split_on sep [] = [[]]"
| "split_on sep (c # cs) =
     (if c = sep then [] # split_on sep cs
      else (case split_on sep cs of [] \<Rightarrow> [[c]] | w # ws \<Rightarrow> (c # w) # ws))"

subsection \<open>Numbers\<close>

text \<open>
  A JavaScript number is an IEEE-754 double. A finite double is modelled by the rational
  it denotes (so \<open>-0\<close> is \<open>0\<close>), and the three values that are no rational are
  constructors of their own. A decimal text read by \<open>parseFloat\<close> denotes its exact
  value; the results of the arithmetic of the image preprocessor are rounded as doubles
  are (\<open>roundDouble\<close> below).
\<close>

datatype number = NaN | Finite rat | PosInfinity | NegInfinity

text \<open>The comparison \<open>x >= 0\<close>; every comparison with \<open>NaN\<close> is false.\<close>

fun nonNegative :: "number \<Rightarrow> bool" where
  "nonNegative NaN = False"
| "nonNegative (Finite q) = (0 \<le> q)"
| "nonNegative PosInfinity = True"
| "nonNegative NegInfinity = False"

fun isFinite :: "number \<Rightarrow> bool" where
  "isFinite (Finite q) = True"
| "isFinite _ = False"

definition isDigit :: "char \<Rightarrow> bool" where
  "isDigit c = (48 \<le> (of_char c :: nat) \<and> (of_char c :: nat) \<le> 57)"

definition digitVal :: "char \<Rightarrow> nat" where
  "digitVal c = of_char c - 48"

definition digitsVal :: "string \<Rightarrow> nat" where
  "digitsVal s = foldl (\<lambda>a c. 10 * a + digitVal c) 0 s"

text \<open>
  The exponent part of a decimal literal: \<open>e\<close> or \<open>E\<close>, an optional sign and at least one
  digit; a text that does not start with one contributes the exponent 0.
\<close>

definition exponentPart :: "string \<Rightarrow> int" where
  "exponentPart s = (case s of
       [] \<Rightarrow> 0
     | c # r \<Rightarrow>
         if c = CHR ''e'' \<or> c = CHR ''E'' then
           (case r of
              [] \<Rightarrow> 0
            | d # r' \<Rightarrow>
                if d = CHR ''-'' then
                  (if takeWhile isDigit r' = [] then 0 else - int (digitsVal (takeWhile isDigit r')))
                else if d = CHR ''+'' then int (digitsVal (takeWhile isDigit r'))
                else int (digitsVal (takeWhile isDigit r)))
         else 0)"

definition scale10 :: "rat \<Rightarrow> int \<Rightarrow> rat" where
  "scale10 q e = (if 0 \<le> e then q * 10 ^ nat e else q / 10 ^ nat (- e))"

text \<open>
  \<open>parseFloat(s)\<close>: leading white space is skipped, then the longest prefix that is a
  decimal literal (sign, \<open>Infinity\<close> or digits with an optional fraction and exponent) is
  read; \<open>NaN\<close> when there is none.
\<close>

definition parseFloat :: "string \<Rightarrow> number" where
  "parseFloat s =
     (let t = dropWhile isWhiteSpace s;
          neg = (t \<noteq> [] \<and> hd t = CHR ''-'');
          u = (if t \<noteq> [] \<and> (hd t = CHR ''-'' \<or> hd t = CHR ''+'') then tl t else t)
      in if prefix ''Infinity'' u then (if neg then NegInfinity else PosInfinity)
         else
           let ip = takeWhile isDigit u;
               r1 = dropWhile isDigit u;
               dot = (r1 \<noteq> [] \<and> hd r1 = CHR ''.'');
               fp = (if dot then takeWhile isDigit (tl r1) else []);
               r2 = (if dot then dropWhile isDigit (tl r1) else r1)
           in if ip = [] \<and> fp = [] then NaN
              else
                let mant = rat_of_nat (digitsVal (ip @ fp)) / 10 ^ length fp;
                    v = scale10 mant (exponentPart r2)
                in Finite (if neg then - v else v))"

subsection \<open>Arithmetic on doubles\<close>

text \<open>
  The result of \<open>/\<close> and of \<open>*\<close> on doubles is the exact result rounded to the nearest
  double, ties to the even significand. A double has a significand of 53 bits: for
  \<open>2 ^ e \<le> \<bar>x\<bar> < 2 ^ (e + 1)\<close> the doubles around \<open>x\<close> are the multiples of
  \<open>2 ^ (e - 52)\<close>. Overflow and subnormal numbers are left out: the values of the
  preprocessor, quotients and products of integers below \<open>2 ^ 32\<close>, stay in the normal
  range.
\<close>

definition pow2 :: "int \<Rightarrow> rat" where
  "pow2 e = (if 0 \<le> e then rat_of_int (2 ^ nat e) else 1 / rat_of_int (2 ^ nat (- e)))"






subsection \<open>Errors\<close>

text \<open>
  A thrown value or a rejected promise: the error's name and its \<open>message\<close>. A message
  that is missing or empty is falsy in \<open>err.message || ...\<close>; both are the empty string
  here.
\<close>

datatype js_error = JsError (err_name: string) (message: string)

text \<open>\<open>try { body } catch (e) { handler }\<close> over results: \<open>Inl\<close> is an exception in flight.\<close>

definition try_catch :: "js_error + 'a \<Rightarrow> (js_error \<Rightarrow> js_error + 'a) \<Rightarrow> js_error + 'a" where
  "try_catch body handler = (case body of Inl e \<Rightarrow> handler e | Inr v \<Rightarrow> Inr v)"

section \<open>The \<open>Date\<close> built-in\<close>

text \<open>
  A time value is an integral number of milliseconds since the epoch, in UTC; a \<open>Date\<close>
  object holds a time value or \<open>NaN\<close>, which is \<open>None\<close> here. The functions below are the
  abstract operations of the ECMAScript specification (its section on Date objects),
  under their names there.
\<close>

type_synonym Date = "int option"

definition validTime :: "int \<Rightarrow> bool" where
  "validTime t = (\<bar>t\<bar> \<le> 8640000000000000)"

definition TimeClip :: "int \<Rightarrow> Date" where
  "TimeClip t = (if \<bar>t\<bar> > 8640000000000000 then None else Some t)"

definition msPerDay :: int where
  "msPerDay = 86400000"

definition Day :: "int \<Rightarrow> int" where
  "Day t = t div msPerDay"

definition TimeWithinDay :: "int \<Rightarrow> int" where
  "TimeWithinDay t = t mod msPerDay"

definition DaysInYear :: "int \<Rightarrow> int" where
  "DaysInYear y = (if y mod 4 \<noteq> 0 then 365 else if y mod 100 \<noteq> 0 then 366
                   else if y mod 400 \<noteq> 0 then 365 else 366)"

definition DayFromYear :: "int \<Rightarrow> int" where
  "DayFromYear y =
     365 * (y - 1970) + (y - 1969) div 4 - (y - 1901) div 100 + (y - 1601) div 400"

text \<open>
  \<open>YearFromTime(t)\<close> is the largest year whose first day is not after \<open>t\<close>. It is computed
  by a search downwards from a year that is not too small; the search ends because the
  first days of the years increase.
\<close>

lemma div_step:
  "0 < k \<Longrightarrow> ((x::int) + 1) div k = x div k + (if (x + 1) mod k = 0 then 1 else 0)"
proof -
  assume k: "0 < k"
  have r: "0 \<le> x mod k" "x mod k < k" using k by simp_all
  have e: "x = k * (x div k) + x mod k" by simp
  show ?thesis
  proof (cases "x mod k = k - 1")
    case True
    have "x + 1 = k * (x div k + 1) + 0" using e True by (simp add: algebra_simps)
    then have "(x + 1) div k = x div k + 1" "(x + 1) mod k = 0"
      using k by (metis add.right_neutral nonzero_mult_div_cancel_left less_irrefl,
          metis add.right_neutral mod_mult_self1_is_0)
    then show ?thesis by simp
  next
    case False
    have "x + 1 = k * (x div k) + (x mod k + 1)" using e by simp
    moreover have "0 \<le> x mod k + 1" "x mod k + 1 < k" using r False by simp_all
    ultimately have "(x + 1) div k = x div k" "(x + 1) mod k = x mod k + 1"
      using int_div_pos_eq int_mod_pos_eq by blast+
    then show ?thesis using r by simp
  qed
qed

lemma leap_cycle_shift:
  "((y::int) - 1968) mod 4 = y mod 4" "(y - 1900) mod 100 = y mod 100"
  "(y - 1600) mod 400 = y mod 400"
  using mod_mult_self1 [of y "- 492" 4] mod_mult_self1 [of y "- 19" 100]
    mod_mult_self1 [of y "- 4" 400] by simp_all

lemma leap_cycle_dvd: "(4::int) dvd 100" "(100::int) dvd 400"
  by simp_all

lemma leap_cycle_nest:
  "(y::int) mod 100 = 0 \<Longrightarrow> y mod 4 = 0" "y mod 400 = 0 \<Longrightarrow> y mod 100 = 0"
  using dvd_trans [OF leap_cycle_dvd(1), of y] dvd_trans [OF leap_cycle_dvd(2), of y]
  by (simp_all only: mod_eq_0_iff_dvd)

lemma DayFromYear_step: "DayFromYear (y + 1) = DayFromYear y + DaysInYear y"
proof -
  define p4 p100 p400
    where "p4 = (y mod 4 = 0)" and "p100 = (y mod 100 = 0)" and "p400 = (y mod 400 = 0)"
  define A B C
    where "A = (y - 1969) div 4" and "B = (y - 1901) div 100" and "C = (y - 1601) div 400"
  have a: "(y + 1 - 1969) div 4 = A + (if p4 then 1 else 0)"
    using div_step [of 4 "y - 1969"] leap_cycle_shift(1) [of y] by (simp add: p4_def A_def)
  have b: "(y + 1 - 1901) div 100 = B + (if p100 then 1 else 0)"
    using div_step [of 100 "y - 1901"] leap_cycle_shift(2) [of y]
    by (simp add: p100_def B_def)
  have c: "(y + 1 - 1601) div 400 = C + (if p400 then 1 else 0)"
    using div_step [of 400 "y - 1601"] leap_cycle_shift(3) [of y]
    by (simp add: p400_def C_def)
  have d: "p100 \<Longrightarrow> p4" "p400 \<Longrightarrow> p100"
    using leap_cycle_nest [of y] by (simp_all add: p4_def p100_def p400_def)
  have l: "DayFromYear (y + 1) = 365 * (y + 1 - 1970) + (A + (if p4 then 1 else 0))
             - (B + (if p100 then 1 else 0)) + (C + (if p400 then 1 else 0))"
    unfolding DayFromYear_def a b c ..
  have r: "DayFromYear y = 365 * (y - 1970) + A - B + C"
    unfolding DayFromYear_def A_def B_def C_def ..
  have diy: "DaysInYear y =
      (if \<not> p4 then 365 else if \<not> p100 then 366 else if \<not> p400 then 365 else 366)"
    unfolding DaysInYear_def p4_def p100_def p400_def ..
  show ?thesis unfolding l r diy using d by auto
qed

lemma DaysInYear_bounds: "365 \<le> DaysInYear y" "DaysInYear y \<le> 366"
  by (simp_all add: DaysInYear_def)

lemma DayFromYear_pred: "DayFromYear (y - 1) < DayFromYear y"
  using DayFromYear_step [of "y - 1"] DaysInYear_bounds(1) [of "y - 1"] by simp

function yearDown :: "int \<Rightarrow> int \<Rightarrow> int" where
  "yearDown d y = (if DayFromYear y \<le> d then y else yearDown d (y - 1))"
  by pat_completeness auto
termination
  apply (relation "measure (\<lambda>(d, y). nat (DayFromYear y - d))")
  using DayFromYear_pred by auto

declare yearDown.simps [simp del]

definition YearFromDay :: "int \<Rightarrow> int" where
  "YearFromDay d = yearDown d (if 0 \<le> d then 1970 + d div 365 else 1970 + d div 366)"

definition YearFromTime :: "int \<Rightarrow> int" where
  "YearFromTime t = YearFromDay (Day t)"

definition leapDays :: "int \<Rightarrow> int" where
  "leapDays y = (if DaysInYear y = 366 then 1 else 0)"

definition InLeapYear :: "int \<Rightarrow> int" where
  "InLeapYear t = leapDays (YearFromTime t)"

definition DayWithinYear :: "int \<Rightarrow> int" where
  "DayWithinYear t = Day t - DayFromYear (YearFromTime t)"

text \<open>The month (0 to 11) of the day \<open>d\<close> of a year with \<open>l\<close> leap days, and its first day.\<close>

definition monthOfYearDay :: "int \<Rightarrow> int \<Rightarrow> int" where
  "monthOfYearDay d l =
    (if d < 31 then 0 else if d < 59 + l then 1 else if d < 90 + l then 2
     else if d < 120 + l then 3 else if d < 151 + l then 4 else if d < 181 + l then 5
     else if d < 212 + l then 6 else if d < 243 + l then 7 else if d < 273 + l then 8
     else if d < 304 + l then 9 else if d < 334 + l then 10 else 11)"

definition monthStart :: "int \<Rightarrow> int \<Rightarrow> int" where
  "monthStart m l = (if m = 0 then 0 else if m = 1 then 31 else if m = 2 then 59 + l
     else if m = 3 then 90 + l else if m = 4 then 120 + l else if m = 5 then 151 + l
     else if m = 6 then 181 + l else if m = 7 then 212 + l else if m = 8 then 243 + l
     else if m = 9 then 273 + l else if m = 10 then 304 + l else 334 + l)"

definition MonthFromTime :: "int \<Rightarrow> int" where
  "MonthFromTime t = monthOfYearDay (DayWithinYear t) (InLeapYear t)"

definition DateFromTime :: "int \<Rightarrow> int" where
  "DateFromTime t = DayWithinYear t - monthStart (MonthFromTime t) (InLeapYear t) + 1"

definition HourFromTime :: "int \<Rightarrow> int" where
  "HourFromTime t = (t div 3600000) mod 24"

definition MinFromTime :: "int \<Rightarrow> int" where
  "MinFromTime t = (t div 60000) mod 60"

definition SecFromTime :: "int \<Rightarrow> int" where
  "SecFromTime t = (t div 1000) mod 60"

definition msFromTime :: "int \<Rightarrow> int" where
  "msFromTime t = t mod 1000"

definition DaysInMonth :: "int \<Rightarrow> int \<Rightarrow> int" where
  "DaysInMonth y m = (if m = 1 then 28 + leapDays y
     else if m = 3 \<or> m = 5 \<or> m = 8 \<or> m = 10 then 30 else 31)"

definition MakeTime :: "int \<Rightarrow> int \<Rightarrow> int \<Rightarrow> int \<Rightarrow> int" where
  "MakeTime h m s ms = h * 3600000 + m * 60000 + s * 1000 + ms"

definition MakeDay :: "int \<Rightarrow> int \<Rightarrow> int \<Rightarrow> int" where
  "MakeDay year month dt = (let ym = year + month div 12; mn = month mod 12 in
     DayFromYear ym + monthStart mn (leapDays ym) + dt - 1)"

definition MakeDate :: "int \<Rightarrow> int \<Rightarrow> int" where
  "MakeDate day time = day * msPerDay + time"

subsection \<open>\<open>Date.prototype.toISOString\<close>\<close>

definition digitChar :: "nat \<Rightarrow> char" where
  "digitChar n = char_of (48 + n)"

text \<open>The last \<open>n\<close> decimal digits of \<open>k\<close>, padded with zeros.\<close>

fun padNat :: "nat \<Rightarrow> nat \<Rightarrow> string" where
  "padNat 0 k = []"
| "padNat (Suc n) k = padNat n (k div 10) @ [digitChar (k mod 10)]"

text \<open>Four digits for the years 0 to 9999, else a sign and six digits.\<close>

definition yearText :: "int \<Rightarrow> string" where
  "yearText y = (if 0 \<le> y \<and> y \<le> 9999 then padNat 4 (nat y)
                 else (if y < 0 then CHR ''-'' else CHR ''+'') # padNat 6 (nat \<bar>y\<bar>))"

text \<open>The calendar day of a time value in UTC, as \<open>YYYY-MM-DD\<close>.\<close>

definition isoDate :: "int \<Rightarrow> string" where
  "isoDate t = yearText (YearFromTime t) @ ''-'' @ padNat 2 (nat (MonthFromTime t + 1))
                 @ ''-'' @ padNat 2 (nat (DateFromTime t))"

definition isoTime :: "int \<Rightarrow> string" where
  "isoTime t = padNat 2 (nat (HourFromTime t)) @ '':'' @ padNat 2 (nat (MinFromTime t))
                 @ '':'' @ padNat 2 (nat (SecFromTime t)) @ ''.'' @ padNat 3 (nat (msFromTime t))"

definition isoString :: "int \<Rightarrow> string" where
  "isoString t = isoDate t @ ''T'' @ isoTime t @ ''Z''"

text \<open>\<open>toISOString()\<close> throws a \<open>RangeError\<close> on an invalid date.\<close>

definition toISOString :: "Date \<Rightarrow> js_error + string" where
  "toISOString d = (case d of
       None \<Rightarrow> Inl (JsError ''RangeError'' ''Invalid time value'')
     | Some t \<Rightarrow> Inr (isoString t))"

definition getTime :: "Date \<Rightarrow> int option" where
  "getTime d = d"

subsection \<open>\<open>new Date(string)\<close>\<close>

text \<open>
  \<open>Date.parse\<close> reads the date-time string format of the ECMAScript specification:
  \<open>YYYY\<close>, \<open>YYYY-MM\<close> or \<open>YYYY-MM-DD\<close>, with years beyond 0 to 9999 as a sign and six
  digits; then optionally \<open>T\<close> and \<open>HH:mm\<close>, \<open>HH:mm:ss\<close> or \<open>HH:mm:ss.sss\<close>, and after a
  time optionally \<open>Z\<close> or an offset \<open>+HH:mm\<close> or \<open>-HH:mm\<close>. A date without a time is UTC;
  a date and time without an offset is local time. What an engine makes of any other
  text is its own choice, and so is the local time zone: both are fields of the
  \<open>platform\<close> the program runs on. A text whose day does not exist in its month, or
  whose hour is 24, is left to the platform as well.
\<close>

record platform =
  localToUTC :: "int \<Rightarrow> int"
  legacyParse :: "string \<Rightarrow> Date"

definition takeDigits :: "nat \<Rightarrow> string \<Rightarrow> (nat \<times> string) option" where
  "takeDigits n s = (if n \<le> length s \<and> list_all isDigit (take n s)
                     then Some (digitsVal (take n s), drop n s) else None)"

definition parseYear :: "string \<Rightarrow> (int \<times> string) option" where
  "parseYear s = (case takeDigits 4 s of
       Some (y, r) \<Rightarrow> Some (int y, r)
     | None \<Rightarrow> (case s of
          [] \<Rightarrow> None
        | c # s' \<Rightarrow>
            if c = CHR ''+'' \<or> c = CHR ''-'' then
              (case takeDigits 6 s' of
                 None \<Rightarrow> None
               | Some (y, r) \<Rightarrow>
                   if c = CHR ''-'' then (if y = 0 then None else Some (- int y, r))
                   else Some (int y, r))
            else None))"

definition parseMonthDay :: "string \<Rightarrow> ((nat \<times> nat) \<times> string) option" where
  "parseMonthDay s = (case s of
       [] \<Rightarrow> Some ((1, 1), [])
     | c # s1 \<Rightarrow>
         if c \<noteq> CHR ''-'' then Some ((1, 1), s)
         else (case takeDigits 2 s1 of
                 None \<Rightarrow> None
               | Some (m, s2) \<Rightarrow>
                   (case s2 of
                      [] \<Rightarrow> Some ((m, 1), [])
                    | c2 # s3 \<Rightarrow>
                        if c2 \<noteq> CHR ''-'' then Some ((m, 1), s2)
                        else (case takeDigits 2 s3 of
                                None \<Rightarrow> None
                              | Some (d, s4) \<Rightarrow> Some ((m, d), s4)))))"

definition parseTimeOfDay :: "string \<Rightarrow> ((nat \<times> nat \<times> nat \<times> nat) \<times> string) option" where
  "parseTimeOfDay s = (case takeDigits 2 s of
       None \<Rightarrow> None
     | Some (h, s1) \<Rightarrow>
         (case s1 of
            [] \<Rightarrow> None
          | c # s2 \<Rightarrow>
              if c \<noteq> CHR '':'' then None
              else (case takeDigits 2 s2 of
                      None \<Rightarrow> None
                    | Some (mi, s3) \<Rightarrow>
                        (case s3 of
                           [] \<Rightarrow> Some ((h, mi, 0, 0), [])
                         | c3 # s4 \<Rightarrow>
                             if c3 \<noteq> CHR '':'' then Some ((h, mi, 0, 0), s3)
                             else (case takeDigits 2 s4 of
                                     None \<Rightarrow> None
                                   | Some (sec, s5) \<Rightarrow>
                                       (case s5 of
                                          [] \<Rightarrow> Some ((h, mi, sec, 0), [])
                                        | c5 # s6 \<Rightarrow>
                                            if c5 \<noteq> CHR ''.'' then Some ((h, mi, sec, 0), s5)
                                            else (case takeDigits 3 s6 of
                                                    None \<Rightarrow> None
                                                  | Some (ms, s7) \<Rightarrow>
                                                      Some ((h, mi, sec, ms), s7))))))))"

text \<open>The offset from UTC in minutes, or local time when the text names none.\<close>

datatype utc_offset = LocalTime | Offset int

definition parseOffset :: "string \<Rightarrow> utc_offset option" where
  "parseOffset s = (case s of
       [] \<Rightarrow> Some LocalTime
     | c # s1 \<Rightarrow>
         if c = CHR ''Z'' then (if s1 = [] then Some (Offset 0) else None)
         else if c = CHR ''+'' \<or> c = CHR ''-'' then
           (case takeDigits 2 s1 of
              None \<Rightarrow> None
            | Some (h, s2) \<Rightarrow>
                (case s2 of
                   [] \<Rightarrow> None
                 | c2 # s3 \<Rightarrow>
                     if c2 \<noteq> CHR '':'' then None
                     else (case takeDigits 2 s3 of
                             None \<Rightarrow> None
                           | Some (m, s4) \<Rightarrow>
                               if s4 = [] \<and> h \<le> 23 \<and> m \<le> 59
                               then Some (Offset ((if c = CHR ''-'' then - 1 else 1)
                                                   * int (60 * h + m)))
                               else None)))
         else None)"

record DateTimeFields =
  f_year :: int
  f_month :: nat
  f_day :: nat
  f_hour :: nat
  f_minute :: nat
  f_second :: nat
  f_ms :: nat
  f_offset :: utc_offset

definition parseISO :: "string \<Rightarrow> DateTimeFields option" where
  "parseISO s = (case parseYear s of
       None \<Rightarrow> None
     | Some (y, r) \<Rightarrow>
         (case parseMonthDay r of
            None \<Rightarrow> None
          | Some ((m, d), r2) \<Rightarrow>
              (case r2 of
                 [] \<Rightarrow> Some \<lparr>f_year = y, f_month = m, f_day = d, f_hour = 0, f_minute = 0,
                              f_second = 0, f_ms = 0, f_offset = Offset 0\<rparr>
               | c # r3 \<Rightarrow>
                   if c \<noteq> CHR ''T'' then None
                   else (case parseTimeOfDay r3 of
                           None \<Rightarrow> None
                         | Some ((h, mi, sec, ms), r4) \<Rightarrow>
                             (case parseOffset r4 of
                                None \<Rightarrow> None
                              | Some off \<Rightarrow>
                                  Some \<lparr>f_year = y, f_month = m, f_day = d, f_hour = h,
                                        f_minute = mi, f_second = sec, f_ms = ms,
                                        f_offset = off\<rparr>)))))"

definition fieldsInRange :: "DateTimeFields \<Rightarrow> bool" where
  "fieldsInRange f = (1 \<le> f_month f \<and> f_month f \<le> 12 \<and> 1 \<le> f_day f
     \<and> int (f_day f) \<le> DaysInMonth (f_year f) (int (f_month f) - 1)
     \<and> f_hour f \<le> 23 \<and> f_minute f \<le> 59 \<and> f_second f \<le> 59)"

definition fieldsTime :: "platform \<Rightarrow> DateTimeFields \<Rightarrow> int" where
  "fieldsTime pf f =
     (let t = MakeDate (MakeDay (f_year f) (int (f_month f) - 1) (int (f_day f)))
                (MakeTime (int (f_hour f)) (int (f_minute f)) (int (f_second f))
                   (int (f_ms f)))
      in case f_offset f of Offset m \<Rightarrow> t - m * 60000 | LocalTime \<Rightarrow> localToUTC pf t)"

definition Date_parse :: "platform \<Rightarrow> string \<Rightarrow> Date" where
  "Date_parse pf s = (case parseISO s of
       None \<Rightarrow> legacyParse pf s
     | Some f \<Rightarrow> if fieldsInRange f then TimeClip (fieldsTime pf f) else legacyParse pf s)"

definition Date_new :: "platform \<Rightarrow> string \<Rightarrow> Date" where
  "Date_new pf s = Date_parse pf s"

section \<open>The data model of \<open>types.ts\<close>\<close>

record GeolocationPosition =
  latitude :: number
  longitude :: number

record OcrResult =
  productName :: string
  ocrPrice :: number

text \<open>
  \<open>ProductRecord\<close>; the field \<open>id\<close> is \<open>id_p\<close> here, \<open>id\<close> being the identity function
  of HOL, and \<open>OcrResult.price\<close> is \<open>ocrPrice\<close>.
\<close>

record ProductRecord =
  id_p :: string
  imageUrl :: string
  name :: string
  price :: number
  date :: string
  location :: "GeolocationPosition option"

section \<open>The component state of \<open>App\<close>\<close>

text \<open>
  One field per \<open>useState\<close> of lines 12 to 24, and the value of the file input behind
  \<open>fileInputRef\<close> (\<open>None\<close> while the ref is not attached).
\<close>

record AppState =
  records :: "ProductRecord list"
  filteredRecords :: "ProductRecord list"
  isLoadingOcr :: bool
  isLoadingAnalysis :: bool
  ocrResult :: "OcrResult option"
  analysisResult :: string
  error :: "string option"
  analysisQuery :: string
  imagePreview :: "string option"
  fileInput :: "string option"
  userLocation :: "GeolocationPosition option"
  searchTerm :: string
  dateFilter :: string

definition initialState :: AppState where
  "initialState = \<lparr> records = [], filteredRecords = [], isLoadingOcr = False,
     isLoadingAnalysis = False, ocrResult = None, analysisResult = [], error = None,
     analysisQuery = [], imagePreview = None, fileInput = None, userLocation = None,
     searchTerm = [], dateFilter = [] \<rparr>"

section \<open>Persistent storage\<close>

subsection \<open>JSON\<close>

text \<open>
  The values of JSON. \<open>JSON.stringify\<close> of a number that is \<open>NaN\<close> or infinite is
  \<open>null\<close>; the properties of an object keep their order of creation.
\<close>

datatype json =
    JNull
  | JBool bool
  | JNumber rat
  | JString string
  | JArray "json list"
  | JObject "(string \<times> json) list"

definition numberJson :: "number \<Rightarrow> json" where
  "numberJson n = (case n of Finite q \<Rightarrow> JNumber q | _ \<Rightarrow> JNull)"

definition locationJson :: "GeolocationPosition option \<Rightarrow> json" where
  "locationJson l = (case l of
       None \<Rightarrow> JNull
     | Some g \<Rightarrow> JObject [(''latitude'', numberJson (latitude g)),
                           (''longitude'', numberJson (longitude g))])"

definition recordJson :: "ProductRecord \<Rightarrow> json" where
  "recordJson r = JObject [(''id'', JString (id_p r)), (''imageUrl'', JString (imageUrl r)),
     (''name'', JString (name r)), (''price'', numberJson (price r)),
     (''date'', JString (date r)), (''location'', locationJson (location r))]"

text \<open>
  A stored text is identified by what \<open>JSON.parse\<close> makes of it: the JSON value it
  denotes, or a text that is not JSON (the empty text among them), on which
  \<open>JSON.parse\<close> throws a \<open>SyntaxError\<close>. So \<open>JSON.parse(JSON.stringify(v))\<close> is the JSON value
  of \<open>v\<close>, as the language guarantees; the characters of the text are not modelled.
\<close>

datatype payload = JsonText json | OtherText string

definition JSON_stringify :: "ProductRecord list \<Rightarrow> payload" where
  "JSON_stringify rs = JsonText (JArray (map recordJson rs))"

definition JSON_parse :: "payload \<Rightarrow> js_error + json" where
  "JSON_parse p = (case p of
       JsonText j \<Rightarrow> Inr j
     | OtherText s \<Rightarrow> Inl (JsError ''SyntaxError'' ''Unexpected token''))"

definition truthyPayload :: "payload \<Rightarrow> bool" where
  "truthyPayload p = (case p of JsonText j \<Rightarrow> True | OtherText s \<Rightarrow> truthy s)"

text \<open>
  \<open>JSON.parse\<close> returns a value of type \<open>any\<close>, which \<open>setRecords\<close> takes for a
  \<open>ProductRecord[]\<close>. The functions below read a JSON value at that type: an array of
  objects that have the six properties at their types (further properties are not
  represented). A value that is no such array has no reading.
\<close>

definition jsonNumber :: "json \<Rightarrow> number option" where
  "jsonNumber j = (case j of JNumber q \<Rightarrow> Some (Finite q) | _ \<Rightarrow> None)"

definition jsonString :: "json \<Rightarrow> string option" where
  "jsonString j = (case j of JString s \<Rightarrow> Some s | _ \<Rightarrow> None)"

definition property :: "(string \<times> json) list \<Rightarrow> string \<Rightarrow> json" where
  "property fs k = (case map_of fs k of None \<Rightarrow> JNull | Some v \<Rightarrow> v)"

definition jsonLocation :: "json \<Rightarrow> GeolocationPosition option option" where
  "jsonLocation j = (case j of
       JNull \<Rightarrow> Some None
     | JObject fs \<Rightarrow>
         (case jsonNumber (property fs ''latitude'') of
            None \<Rightarrow> None
          | Some la \<Rightarrow>
              (case jsonNumber (property fs ''longitude'') of
                 None \<Rightarrow> None
               | Some lo \<Rightarrow> Some (Some \<lparr>latitude = la, longitude = lo\<rparr>)))
     | _ \<Rightarrow> None)"

definition jsonRecord :: "json \<Rightarrow> ProductRecord option" where
  "jsonRecord j = (case j of
       JObject fs \<Rightarrow>
         (case (jsonString (property fs ''id''), jsonString (property fs ''imageUrl''),
                jsonString (property fs ''name''), jsonNumber (property fs ''price''),
                jsonString (property fs ''date''), jsonLocation (property fs ''location'')) of
            (Some i, Some u, Some n, Some p, Some d, Some l) \<Rightarrow>
              Some \<lparr>id_p = i, imageUrl = u, name = n, price = p, date = d, location = l\<rparr>
          | _ \<Rightarrow> None)
     | _ \<Rightarrow> None)"

definition jsonRecords :: "json \<Rightarrow> ProductRecord list option" where
  "jsonRecords j = (case j of JArray js \<Rightarrow> those (map jsonRecord js) | _ \<Rightarrow> None)"

subsection \<open>\<open>localStorage\<close>\<close>

text \<open>
  The items by key; whether the page may use the storage at all (a \<open>SecurityError\<close>
  otherwise); and which writes the quota admits (a \<open>QuotaExceededError\<close> otherwise).
\<close>

record LocalStorage =
  items :: "string \<Rightarrow> payload option"
  accessible :: bool
  admits :: "string \<Rightarrow> payload \<Rightarrow> bool"

definition getItem :: "LocalStorage \<Rightarrow> string \<Rightarrow> js_error + payload option" where
  "getItem ls k = (if accessible ls then Inr (items ls k)
                   else Inl (JsError ''SecurityError'' ''The operation is insecure.''))"

definition setItem :: "LocalStorage \<Rightarrow> string \<Rightarrow> payload \<Rightarrow> js_error + LocalStorage" where
  "setItem ls k v =
     (if \<not> accessible ls then Inl (JsError ''SecurityError'' ''The operation is insecure.'')
      else if \<not> admits ls k v then Inl (JsError ''QuotaExceededError'' ''The quota has been exceeded.'')
      else Inr (ls\<lparr>items := (items ls)(k := Some v)\<rparr>))"

subsection \<open>The load effect (lines 26 to 35)\<close>

text \<open>
  The state after the effect: with \<open>records\<close> at its type, or holding a JSON value that
  is no \<open>ProductRecord[]\<close>, which the rest of the model does not follow. An effect
  returns that and what it wrote to the console, or \<open>Inl\<close> when an exception leaves it.
\<close>

datatype loaded = Typed AppState | Untyped json

definition setRecordsParsed :: "json \<Rightarrow> AppState \<Rightarrow> loaded" where
  "setRecordsParsed v s = (case jsonRecords v of
       Some rs \<Rightarrow> Typed (s\<lparr>records := rs\<rparr>)
     | None \<Rightarrow> Untyped v)"

definition loadEffect ::
  "LocalStorage \<Rightarrow> AppState \<Rightarrow> js_error + (loaded \<times> (string \<times> js_error) list)" where
  "loadEffect ls s =
     try_catch
       (case getItem ls ''shoppingHistory'' of
          Inl e \<Rightarrow> Inl e
        | Inr storedRecords \<Rightarrow>
            (case storedRecords of
               None \<Rightarrow> Inr (Typed s, [])
             | Some p \<Rightarrow>
                 if truthyPayload p then
                   (case JSON_parse p of
                      Inl e \<Rightarrow> Inl e
                    | Inr v \<Rightarrow> Inr (setRecordsParsed v s, []))
                 else Inr (Typed s, [])))
       (\<lambda>e. Inr (Typed s, [(''Failed to load records from localStorage'', e)]))"

subsection \<open>The save effect (lines 37 to 44)\<close>

definition saveEffect ::
  "LocalStorage \<Rightarrow> AppState
   \<Rightarrow> js_error + (LocalStorage \<times> AppState \<times> (string \<times> js_error) list)" where
  "saveEffect ls s =
     try_catch
       (case setItem ls ''shoppingHistory'' (JSON_stringify (records s)) of
          Inl e \<Rightarrow> Inl e
        | Inr ls' \<Rightarrow> Inr (ls', s, []))
       (\<lambda>e. Inr (ls,
                 s\<lparr>error := Some ''Could not save new records. Your browser's storage might be full.''\<rparr>,
                 [(''Failed to save records to localStorage'', e)]))"

section \<open>The filtered view (lines 46 to 62)\<close>

text \<open>The callback of the first \<open>filter\<close>.\<close>

definition nameMatches :: "string \<Rightarrow> ProductRecord \<Rightarrow> bool" where
  "nameMatches search r = str_includes (toLowerCase (name r)) (toLowerCase search)"

text \<open>
  The callback of the second \<open>filter\<close>; \<open>toISOString\<close> throws on a date that does not
  parse. \<open>split('T')[0]\<close> is the first piece, and \<open>undefined\<close> (never equal to a string)
  if there were none.
\<close>

definition dateMatches :: "platform \<Rightarrow> string \<Rightarrow> ProductRecord \<Rightarrow> js_error + bool" where
  "dateMatches pf day r = (case toISOString (Date_new pf (date r)) of
       Inl e \<Rightarrow> Inl e
     | Inr isoText \<Rightarrow>
         Inr (case split_on (CHR ''T'') isoText of [] \<Rightarrow> False | w # ws \<Rightarrow> w = day))"

text \<open>\<open>Array.prototype.filter\<close> with a callback that may throw: the first exception ends it.\<close>

fun filter_throwing :: "('a \<Rightarrow> js_error + bool) \<Rightarrow> 'a list \<Rightarrow> js_error + 'a list" where
  "filter_throwing p [] = Inr []"
| "filter_throwing p (x # xs) =
     (case p x of
        Inl e \<Rightarrow> Inl e
      | Inr b \<Rightarrow>
          (case filter_throwing p xs of
             Inl e \<Rightarrow> Inl e
           | Inr ys \<Rightarrow> Inr (if b then x # ys else ys)))"

text \<open>
  The comparator of the \<open>sort\<close>: the difference of the two times, \<open>NaN\<close> (\<open>None\<close>) when
  either date is invalid.
\<close>

definition compareDates :: "platform \<Rightarrow> ProductRecord \<Rightarrow> ProductRecord \<Rightarrow> int option" where
  "compareDates pf a b =
     (case (getTime (Date_new pf (date b)), getTime (Date_new pf (date a))) of
        (Some tb, Some ta) \<Rightarrow> Some (tb - ta)
      | _ \<Rightarrow> None)"

text \<open>
  \<open>Array.prototype.sort\<close> is stable, puts \<open>a\<close> after \<open>b\<close> when the comparator is positive
  on \<open>(a, b)\<close>, and takes \<open>NaN\<close> for 0. With a consistent comparator the result is the
  same for every stable algorithm, and insertion sort computes it; with an inconsistent
  one the order is the engine's choice, and the model follows insertion sort.
\<close>

definition positive :: "int option \<Rightarrow> bool" where
  "positive v = (case v of None \<Rightarrow> False | Some n \<Rightarrow> 0 < n)"

fun insert_by :: "('a \<Rightarrow> 'a \<Rightarrow> int option) \<Rightarrow> 'a \<Rightarrow> 'a list \<Rightarrow> 'a list" where
  "insert_by cmp x [] = [x]"
| "insert_by cmp x (y # ys) =
     (if positive (cmp x y) then y # insert_by cmp x ys else x # y # ys)"

definition array_sort :: "('a \<Rightarrow> 'a \<Rightarrow> int option) \<Rightarrow> 'a list \<Rightarrow> 'a list" where
  "array_sort cmp xs = foldr (insert_by cmp) xs []"

text \<open>The value that the effect passes to \<open>setFilteredRecords\<close>, or the exception.\<close>

definition filteredView ::
  "platform \<Rightarrow> ProductRecord list \<Rightarrow> string \<Rightarrow> string \<Rightarrow> js_error + ProductRecord list" where
  "filteredView pf recs search day =
     (let temp1 = (if truthy search then filter (nameMatches search) recs else recs)
      in case (if truthy day then filter_throwing (dateMatches pf day) temp1 else Inr temp1) of
           Inl e \<Rightarrow> Inl e
         | Inr temp2 \<Rightarrow> Inr (array_sort (compareDates pf) temp2))"

subsection \<open>The same effect over a store of arrays\<close>

text \<open>
  Arrays are objects: \<open>[...records]\<close> and \<open>filter\<close> create a new array, \<open>sort\<close> reorders
  the array it is called on and returns it. The store is the list of the arrays created
  so far, an array's reference is its position, and the state variable \<open>records\<close> is a
  reference. The effect returns the store it leaves and the reference it passes to
  \<open>setFilteredRecords\<close>, or the exception.
\<close>

type_synonym ref = nat

type_synonym store = "ProductRecord list list"

definition alloc :: "store \<Rightarrow> ProductRecord list \<Rightarrow> store \<times> ref" where
  "alloc h xs = (h @ [xs], length h)"

definition filterEffect ::
  "platform \<Rightarrow> store \<Rightarrow> ref \<Rightarrow> string \<Rightarrow> string \<Rightarrow> store \<times> (js_error + ref)" where
  "filterEffect pf h recs search day =
     (let (h1, temp1) = alloc h (h ! recs);
          (h2, temp2) = (if truthy search then alloc h1 (filter (nameMatches search) (h1 ! temp1))
                         else (h1, temp1))
      in if truthy day then
           (case filter_throwing (dateMatches pf day) (h2 ! temp2) of
              Inl e \<Rightarrow> (h2, Inl e)
            | Inr ys \<Rightarrow>
                (let (h3, temp3) = alloc h2 ys
                 in (h3[temp3 := array_sort (compareDates pf) (h3 ! temp3)], Inr temp3)))
         else (h2[temp2 := array_sort (compareDates pf) (h2 ! temp2)], Inr temp2))"

section \<open>The image preprocessor (lines 64 to 103)\<close>



section \<open>The event handlers\<close>

subsection \<open>\<open>resetAddForm\<close> (lines 105 to 113)\<close>

definition resetAddForm :: "AppState \<Rightarrow> AppState" where
  "resetAddForm s = s\<lparr>ocrResult := None, imagePreview := None, userLocation := None,
     error := None, fileInput := (case fileInput s of None \<Rightarrow> None | Some v \<Rightarrow> Some [])\<rparr>"

subsection \<open>\<open>handleFileChange\<close> (lines 115 to 137)\<close>

text \<open>
  \<open>extractProductInfoFromImage\<close> is in \<open>services/geminiService\<close> and is a parameter, as
  is the outcome of \<open>resizeImage\<close> for the chosen file (\<open>None\<close>: no file was chosen),
  whose data URL the browser computes. \<open>split(',')[1]\<close> is \<open>undefined\<close> (\<open>None\<close>) for a
  text without a comma.
\<close>

type_synonym extraction_service = "string option \<Rightarrow> string \<Rightarrow> js_error + OcrResult"

definition secondPiece :: "string list \<Rightarrow> string option" where
  "secondPiece ws = (case ws of w0 # w1 # r \<Rightarrow> Some w1 | _ \<Rightarrow> None)"

definition failedProcessing :: "js_error \<Rightarrow> AppState \<Rightarrow> AppState" where
  "failedProcessing err s =
     resetAddForm (s\<lparr>error := Some (if truthy (message err) then message err
                      else ''An unknown error occurred during image processing.'')\<rparr>)"

definition handleFileChange ::
  "extraction_service \<Rightarrow> (js_error + string) option \<Rightarrow> AppState \<Rightarrow> AppState" where
  "handleFileChange extractProductInfoFromImage file s =
     (case file of
        None \<Rightarrow> s
      | Some resized \<Rightarrow>
          let s1 = (resetAddForm s)\<lparr>isLoadingOcr := True, error := None\<rparr>;
              s2 = (case resized of
                      Inl err \<Rightarrow> failedProcessing err s1
                    | Inr resizedDataUrl \<Rightarrow>
                        let s' = s1\<lparr>imagePreview := Some resizedDataUrl\<rparr>;
                            base64 = secondPiece (split_on (CHR '','') resizedDataUrl)
                        in (case extractProductInfoFromImage base64 ''image/jpeg'' of
                              Inl err \<Rightarrow> failedProcessing err s'
                            | Inr result \<Rightarrow> s'\<lparr>ocrResult := Some result\<rparr>))
          in s2\<lparr>isLoadingOcr := False\<rparr>)"

subsection \<open>\<open>handleGetLocation\<close> (lines 139 to 156)\<close>

text \<open>What the browser answers: no geolocation at all, a position, or an error.\<close>

datatype geolocation = Unsupported | Position number number | PositionError

definition handleGetLocation :: "geolocation \<Rightarrow> AppState \<Rightarrow> AppState" where
  "handleGetLocation g s = (case g of
       Unsupported \<Rightarrow> s\<lparr>error := Some ''Geolocation is not supported by this browser.''\<rparr>
     | Position la lo \<Rightarrow> s\<lparr>userLocation := Some \<lparr>latitude = la, longitude = lo\<rparr>\<rparr>
     | PositionError \<Rightarrow>
         s\<lparr>error := Some ''Could not get location. Please ensure location services are enabled.''\<rparr>)"

subsection \<open>\<open>handleAddRecord\<close> (lines 158 to 174)\<close>

text \<open>
  What the handler reads from its environment, in the order of the object literal: the
  clock for the id, the text that the template literal makes of \<open>Math.random()\<close>, and the
  clock again for the date. The form of lines 224 to 247 has the two fields
  \<open>productName\<close> and \<open>price\<close>.
\<close>

record AddEnv =
  clockForId :: int
  randomText :: string
  clockForDate :: int

record FormData =
  productNameField :: string
  priceField :: string

definition newRecord ::
  "AddEnv \<Rightarrow> FormData \<Rightarrow> string \<Rightarrow> GeolocationPosition option \<Rightarrow> ProductRecord" where
  "newRecord env form img loc =
     \<lparr> id_p = isoString (clockForId env) @ ''-'' @ randomText env,
       imageUrl = img,
       name = productNameField form,
       price = parseFloat (priceField form),
       date = isoString (clockForDate env),
       location = loc \<rparr>"

definition handleAddRecord :: "AddEnv \<Rightarrow> FormData \<Rightarrow> AppState \<Rightarrow> AppState" where
  "handleAddRecord env form s =
     (case ocrResult s of
        None \<Rightarrow> s
      | Some ocr \<Rightarrow>
          (case imagePreview s of
             None \<Rightarrow> s
           | Some img \<Rightarrow>
               if \<not> truthy img then s
               else resetAddForm
                      (s\<lparr>records := newRecord env form img (userLocation s) # records s\<rparr>)))"

subsection \<open>\<open>handleDeleteRecord\<close> (lines 176 to 178)\<close>

definition handleDeleteRecord :: "string \<Rightarrow> AppState \<Rightarrow> AppState" where
  "handleDeleteRecord i s = s\<lparr>records := filter (\<lambda>record. id_p record \<noteq> i) (records s)\<rparr>"

subsection \<open>\<open>handleAnalyze\<close> (lines 180 to 195)\<close>

text \<open>
  \<open>analyzeShoppingHistory\<close> lives in \<open>services/geminiService\<close>, which is not part of the
  sources at hand: it is a parameter, a function from the query and the history to the
  outcome of the awaited promise. The handler returns the state after its last update
  and the list of calls it made to the service.
\<close>

type_synonym analysis_service = "string \<Rightarrow> ProductRecord list \<Rightarrow> js_error + string"

definition handleAnalyze ::
  "analysis_service \<Rightarrow> AppState \<Rightarrow> AppState \<times> (string \<times> ProductRecord list) list" where
  "handleAnalyze analyzeShoppingHistory s =
     (if \<not> truthy (trim (analysisQuery s)) then (s, [])
      else
        let s1 = s\<lparr>isLoadingAnalysis := True, analysisResult := [], error := None\<rparr>;
            s2 = (case analyzeShoppingHistory (analysisQuery s) (records s) of
                    Inr result \<Rightarrow> s1\<lparr>analysisResult := result\<rparr>
                  | Inl err \<Rightarrow>
                      s1\<lparr>error := Some (if truthy (message err) then message err
                                        else ''An unknown error occurred during analysis.'')\<rparr>)
        in (s2\<lparr>isLoadingAnalysis := False\<rparr>, [(analysisQuery s, records s)]))"

section \<open>Reachable states\<close>

text \<open>
  The states that the handlers reach from the initial state of a first start. The clock
  of the platform gives valid time values. The parameter \<open>guard\<close> restricts the
  environments in which a record is added; \<open>anyAdd\<close> does not restrict them.
\<close>

inductive reachableBy :: "(AddEnv \<Rightarrow> AppState \<Rightarrow> bool) \<Rightarrow> AppState \<Rightarrow> bool"
  for guard :: "AddEnv \<Rightarrow> AppState \<Rightarrow> bool" where
  start: "reachableBy guard initialState"
| fileChange: "reachableBy guard s \<Longrightarrow> reachableBy guard (handleFileChange extract file s)"
| getLocation: "reachableBy guard s \<Longrightarrow> reachableBy guard (handleGetLocation g s)"
| addRecord:
    "reachableBy guard s \<Longrightarrow> validTime (clockForId env) \<Longrightarrow> validTime (clockForDate env)
     \<Longrightarrow> guard env s \<Longrightarrow> reachableBy guard (handleAddRecord env form s)"
| deleteRecord: "reachableBy guard s \<Longrightarrow> reachableBy guard (handleDeleteRecord i s)"
| analyze: "reachableBy guard s \<Longrightarrow> reachableBy guard (fst (handleAnalyze service s))"
| setAnalysisQuery: "reachableBy guard s \<Longrightarrow> reachableBy guard (s\<lparr>analysisQuery := q\<rparr>)"
| setSearchTerm: "reachableBy guard s \<Longrightarrow> reachableBy guard (s\<lparr>searchTerm := q\<rparr>)"
| setDateFilter: "reachableBy guard s \<Longrightarrow> reachableBy guard (s\<lparr>dateFilter := q\<rparr>)"

definition anyAdd :: "AddEnv \<Rightarrow> AppState \<Rightarrow> bool" where
  "anyAdd env s = True"

text \<open>The guard under which the id of the record to add is not in the store yet.\<close>

definition freshId :: "AddEnv \<Rightarrow> AppState \<Rightarrow> bool" where
  "freshId env s =
     (isoString (clockForId env) @ ''-'' @ randomText env \<notin> set (map id_p (records s)))"

section \<open>Predicates of the specification\<close>

text \<open>
  "The name contains the search string case-insensitively": some window of the name has
  the length of the search string and agrees with it character by character, up to
  case.
\<close>

definition containsIgnoringCase :: "string \<Rightarrow> string \<Rightarrow> bool" where
  "containsIgnoringCase hay needle =
     (\<exists>i \<le> length hay. list_all2 (\<lambda>a b. toLowerChar a = toLowerChar b)
                            (take (length needle) (drop i hay)) needle)"

text \<open>
  "Sorted by date descending" is \<open>sorted_wrt (notOlder pf)\<close>: both dates are valid and the
  first record is at least as recent as the second.
\<close>

definition notOlder :: "platform \<Rightarrow> ProductRecord \<Rightarrow> ProductRecord \<Rightarrow> bool" where
  "notOlder pf a b = (case (Date_new pf (date a), Date_new pf (date b)) of
       (Some ta, Some tb) \<Rightarrow> tb \<le> ta
     | _ \<Rightarrow> False)"

text \<open>
  A date text that says which instant it means on every platform: it is in the
  date-time format with its fields in range, and it is a date without a time (read as
  UTC) or names its offset from UTC.
\<close>

definition namesOffset :: "string \<Rightarrow> bool" where
  "namesOffset s = (case parseISO s of
       None \<Rightarrow> False
     | Some f \<Rightarrow> fieldsInRange f \<and> f_offset f \<noteq> LocalTime)"

text \<open>A price text whose first character after white space is a minus sign.\<close>

definition leadingMinus :: "string \<Rightarrow> bool" where
  "leadingMinus s = (case dropWhile isWhiteSpace s of [] \<Rightarrow> False | c # r \<Rightarrow> c = CHR ''-'')"

text \<open>
  A valid record for storage: its numbers are finite (neither \<open>NaN\<close> nor infinite), which
  is what JSON can write.
\<close>

definition finiteLocation :: "GeolocationPosition option \<Rightarrow> bool" where
  "finiteLocation l = (case l of None \<Rightarrow> True | Some g \<Rightarrow> isFinite (latitude g) \<and> isFinite (longitude g))"

definition validRecord :: "ProductRecord \<Rightarrow> bool" where
  "validRecord r = (isFinite (price r) \<and> finiteLocation (location r))"

section \<open>Example values\<close>

text \<open>
  Two platforms, in UTC and five hours west of it; the two records of the scenarios of
  the specification; environments, forms and states of the add-record flow; and two
  storages.
\<close>

definition utcPlatform :: platform where
  "utcPlatform = \<lparr> localToUTC = (\<lambda>t. t), legacyParse = (\<lambda>s. None) \<rparr>"

definition newYorkPlatform :: platform where
  "newYorkPlatform = \<lparr> localToUTC = (\<lambda>t. t + 18000000), legacyParse = (\<lambda>s. None) \<rparr>"

definition milk :: ProductRecord where
  "milk = \<lparr> id_p = ''2024-01-01T10:00:00.000Z-0.25'', imageUrl = ''data:image/jpeg;base64,AAAA'',
            name = ''Milk'', price = Finite (5 / 2), date = ''2024-01-01T10:00:00Z'',
            location = None \<rparr>"

definition bread :: ProductRecord where
  "bread = \<lparr> id_p = ''2024-01-02T10:00:00.000Z-0.75'', imageUrl = ''data:image/jpeg;base64,BBBB'',
             name = ''Bread'', price = Finite 3, date = ''2024-01-02T10:00:00Z'',
             location = Some \<lparr>latitude = Finite (97 / 2), longitude = Finite (- 3)\<rparr> \<rparr>"

definition exampleEnv :: AddEnv where
  "exampleEnv = \<lparr> clockForId = 1704103200000, randomText = ''0.5'', clockForDate = 1704103200001 \<rparr>"

definition laterEnv :: AddEnv where
  "laterEnv = \<lparr> clockForId = 1704189600000, randomText = ''0.5'', clockForDate = 1704189600000 \<rparr>"

definition exampleForm :: FormData where
  "exampleForm = \<lparr> productNameField = ''Milk'', priceField = ''2.5'' \<rparr>"

definition refundForm :: FormData where
  "refundForm = \<lparr> productNameField = ''Refund'', priceField = ''-5'' \<rparr>"

definition exampleOcr :: OcrResult where
  "exampleOcr = \<lparr> productName = ''Milk'', ocrPrice = Finite (5 / 2) \<rparr>"

definition scanned :: "AppState \<Rightarrow> AppState" where
  "scanned s = handleFileChange (\<lambda>b m. Inr exampleOcr) (Some (Inr ''data:image/jpeg;base64,AAAA'')) s"

definition oneAddState :: AppState where
  "oneAddState = handleAddRecord exampleEnv exampleForm (scanned initialState)"

definition twoAddsState :: AppState where
  "twoAddsState = handleAddRecord laterEnv exampleForm (scanned oneAddState)"

definition duplicateIdState :: AppState where
  "duplicateIdState = handleAddRecord exampleEnv exampleForm (scanned oneAddState)"

definition emptyStorage :: LocalStorage where
  "emptyStorage = \<lparr> items = (\<lambda>k. None), accessible = True, admits = (\<lambda>k v. True) \<rparr>"

definition corruptStorage :: LocalStorage where
  "corruptStorage = \<lparr> items = (\<lambda>k. if k = ''shoppingHistory'' then Some (OtherText ''[{oops'') else None),
      accessible = True, admits = (\<lambda>k v. True) \<rparr>"

section \<open>Lemmas about dates\<close>

subsection \<open>Digits\<close>

lemma length_padNat: "length (padNat n k) = n"
  by (induction n arbitrary: k) simp_all

lemma isDigit_digitChar: "d < 10 \<Longrightarrow> isDigit (digitChar d)"
  by (simp add: isDigit_def digitChar_def)

lemma digitVal_digitChar: "d < 10 \<Longrightarrow> digitVal (digitChar d) = d"
  by (simp add: digitVal_def digitChar_def)

lemma padNat_digits: "list_all isDigit (padNat n k)"
  by (induction n arbitrary: k) (simp_all add: isDigit_digitChar)

lemma digitsVal_snoc: "digitsVal (s @ [c]) = 10 * digitsVal s + digitVal c"
  by (simp add: digitsVal_def)

lemma digitsVal_padNat: "digitsVal (padNat n k) = k mod 10 ^ n"
proof (induction n arbitrary: k)
  case 0
  show ?case by (simp add: digitsVal_def)
next
  case (Suc n)
  have "digitsVal (padNat (Suc n) k) = 10 * (k div 10 mod 10 ^ n) + k mod 10"
    by (simp add: digitsVal_snoc Suc.IH digitVal_digitChar)
  also have "\<dots> = k mod (10 * 10 ^ n)"
    by (simp add: mod_mult2_eq)
  finally show ?case by simp
qed

lemma takeDigits_padNat: "k < 10 ^ n \<Longrightarrow> takeDigits n (padNat n k @ r) = Some (k, r)"
  by (simp add: takeDigits_def length_padNat padNat_digits digitsVal_padNat)

lemma takeDigits_non_digit: "0 < n \<Longrightarrow> \<not> isDigit c \<Longrightarrow> takeDigits n (c # r) = None"
  by (cases n) (simp_all add: takeDigits_def)

lemma parseYear_yearText:
  assumes "- 1000000 < y" "y < 1000000"
  shows "parseYear (yearText y @ r) = Some (y, r)"
proof (cases "0 \<le> y \<and> y \<le> 9999")
  case True
  then have "nat y < 10 ^ 4" by simp linarith
  then show ?thesis using True by (simp add: parseYear_def yearText_def takeDigits_padNat)
next
  case False
  define k where "k = nat \<bar>y\<bar>"
  have lt: "k < 10 ^ 6" using assms by (simp add: k_def)
  have nd: "\<not> isDigit (CHR ''-'')" "\<not> isDigit (CHR ''+'')" by (simp_all add: isDigit_def)
  show ?thesis
  proof (cases "y < 0")
    case True
    have yt: "yearText y = CHR ''-'' # padNat 6 k"
      using True by (simp add: yearText_def k_def)
    have "k \<noteq> 0" "- int k = y" using True by (simp_all add: k_def)
    then show ?thesis
      by (simp add: yt parseYear_def takeDigits_non_digit nd takeDigits_padNat [OF lt]
          del: padNat.simps)
  next
    case f: False
    have yt: "yearText y = CHR ''+'' # padNat 6 k"
      using f False by (simp add: yearText_def k_def)
    have "int k = y" using f by (simp add: k_def)
    then show ?thesis
      by (simp add: yt parseYear_def takeDigits_non_digit nd takeDigits_padNat [OF lt]
          del: padNat.simps)
  qed
qed

lemma parseMonthDay_text:
  assumes "m < 100" "d < 100"
  shows "parseMonthDay (''-'' @ padNat 2 m @ ''-'' @ padNat 2 d @ r) = Some ((m, d), r)"
proof -
  have m: "m < 10 ^ 2" and d: "d < 10 ^ 2" using assms by simp_all
  show ?thesis
    by (simp add: parseMonthDay_def takeDigits_padNat [OF m] takeDigits_padNat [OF d]
        del: padNat.simps)
qed

lemma parseTimeOfDay_text:
  assumes "h < 100" "mi < 100" "s < 100" "ms < 1000"
  shows "parseTimeOfDay (padNat 2 h @ '':'' @ padNat 2 mi @ '':'' @ padNat 2 s @ ''.'' @ padNat 3 ms @ r)
         = Some ((h, mi, s, ms), r)"
proof -
  have h: "h < 10 ^ 2" and mi: "mi < 10 ^ 2" and s: "s < 10 ^ 2" and ms: "ms < 10 ^ 3"
    using assms by simp_all
  show ?thesis
    by (simp add: parseTimeOfDay_def takeDigits_padNat [OF h] takeDigits_padNat [OF mi]
        takeDigits_padNat [OF s] takeDigits_padNat [OF ms] del: padNat.simps)
qed

subsection \<open>Years, months and days\<close>

lemma DayFromYear_1970: "DayFromYear 1970 = 0"
  by (simp add: DayFromYear_def)

lemma DayFromYear_mono: "y \<le> z \<Longrightarrow> DayFromYear y \<le> DayFromYear z"
proof (induction z rule: int_ge_induct)
  case base
  show ?case by simp
next
  case (step i)
  then show ?case
    using DayFromYear_step [of i] DaysInYear_bounds(1) [of i] by simp
qed

lemma DayFromYear_lower: "0 \<le> j \<Longrightarrow> 365 * j \<le> DayFromYear (1970 + j)"
proof (induction j rule: int_ge_induct)
  case base
  show ?case by (simp add: DayFromYear_1970)
next
  case (step i)
  have "DayFromYear (1970 + (i + 1)) = DayFromYear (1970 + i) + DaysInYear (1970 + i)"
    using DayFromYear_step [of "1970 + i"] by (simp add: add.assoc)
  then show ?case using step.IH DaysInYear_bounds(1) [of "1970 + i"] by simp
qed

lemma DayFromYear_lower_neg: "j \<le> 0 \<Longrightarrow> 366 * j \<le> DayFromYear (1970 + j)"
proof (induction j rule: int_le_induct)
  case base
  show ?case by (simp add: DayFromYear_1970)
next
  case (step i)
  have "DayFromYear (1970 + i) = DayFromYear (1970 + (i - 1)) + DaysInYear (1970 + (i - 1))"
    using DayFromYear_step [of "1970 + (i - 1)"] by simp
  then show ?case using step.IH DaysInYear_bounds(2) [of "1970 + (i - 1)"] by simp
qed

lemma yearDown_start_pos:
  assumes "0 \<le> d"
  shows "d < DayFromYear (1970 + d div 365 + 1)"
proof -
  define q where "q = d div 365"
  have "d = 365 * q + d mod 365" "d mod 365 < 365" "0 \<le> q"
    using assms by (simp_all add: q_def pos_imp_zdiv_nonneg_iff)
  moreover have "365 * (q + 1) \<le> DayFromYear (1970 + (q + 1))"
    using DayFromYear_lower [of "q + 1"] \<open>0 \<le> q\<close> by simp
  ultimately show ?thesis unfolding q_def [symmetric] by (simp add: add.assoc)
qed

lemma yearDown_start_neg:
  assumes "d < 0"
  shows "d < DayFromYear (1970 + d div 366 + 1)"
proof -
  define q where "q = d div 366"
  have "d = 366 * q + d mod 366" "d mod 366 < 366" "q < 0"
    using assms by (simp_all add: q_def div_neg_pos_less0)
  moreover have "366 * (q + 1) \<le> DayFromYear (1970 + (q + 1))"
    using DayFromYear_lower_neg [of "q + 1"] \<open>q < 0\<close> by simp
  ultimately show ?thesis unfolding q_def [symmetric] by (simp add: add.assoc)
qed

lemma yearDown_spec:
  "d < DayFromYear (y + 1) \<Longrightarrow>
   DayFromYear (yearDown d y) \<le> d \<and> d < DayFromYear (yearDown d y + 1)"
proof (induction d y rule: yearDown.induct)
  case (1 d y)
  show ?case
  proof (cases "DayFromYear y \<le> d")
    case True
    then show ?thesis using "1.prems" by (simp add: yearDown.simps [of d y])
  next
    case False
    then have "d < DayFromYear (y - 1 + 1)" by simp
    from "1.IH" [OF False this] show ?thesis using False by (simp add: yearDown.simps [of d y])
  qed
qed

lemma YearFromDay_spec:
  "DayFromYear (YearFromDay d) \<le> d \<and> d < DayFromYear (YearFromDay d + 1)"
proof (cases "0 \<le> d")
  case True
  then show ?thesis
    using yearDown_spec [OF yearDown_start_pos [OF True]] by (simp add: YearFromDay_def)
next
  case False
  then have "d < 0" by simp
  from yearDown_spec [OF yearDown_start_neg [OF this]] show ?thesis
    using False by (simp add: YearFromDay_def)
qed

lemma YearFromDay_unique:
  assumes "DayFromYear y \<le> d" "d < DayFromYear (y + 1)"
  shows "YearFromDay d = y"
proof (rule ccontr)
  assume ne: "YearFromDay d \<noteq> y"
  note s = YearFromDay_spec [of d]
  show False
  proof (cases "YearFromDay d < y")
    case True
    then have "DayFromYear (YearFromDay d + 1) \<le> DayFromYear y"
      by (intro DayFromYear_mono) simp
    then show False using s assms by simp
  next
    case False
    then have "DayFromYear (y + 1) \<le> DayFromYear (YearFromDay d)"
      using ne by (intro DayFromYear_mono) simp
    then show False using s assms by simp
  qed
qed

lemma DayWithinYear_range:
  "0 \<le> DayWithinYear t \<and> DayWithinYear t < 365 + InLeapYear t"
proof -
  note s = YearFromDay_spec [of "Day t"]
  have "DaysInYear (YearFromTime t) = 365 + InLeapYear t"
    by (simp add: InLeapYear_def leapDays_def DaysInYear_def)
  then show ?thesis
    using s DayFromYear_step [of "YearFromTime t"]
    by (simp add: DayWithinYear_def YearFromTime_def)
qed

lemma leapDays_cases: "leapDays y = 0 \<or> leapDays y = 1"
  by (simp add: leapDays_def)

lemma month_table:
  assumes "0 \<le> d" "d < 365 + l" "l = 0 \<or> l = 1"
  shows "0 \<le> monthOfYearDay d l" "monthOfYearDay d l \<le> 11"
    "monthStart (monthOfYearDay d l) l \<le> d"
    "d - monthStart (monthOfYearDay d l) l + 1
       \<le> (if monthOfYearDay d l = 1 then 28 + l
           else if monthOfYearDay d l \<in> {3, 5, 8, 10} then 30 else 31)"
  using assms by (auto simp add: monthOfYearDay_def monthStart_def)

lemma MakeDay_fields:
  "MakeDay (YearFromTime t) (MonthFromTime t) (DateFromTime t) = Day t"
proof -
  note r = DayWithinYear_range [of t]
  have l: "InLeapYear t = 0 \<or> InLeapYear t = 1"
    using leapDays_cases by (simp add: InLeapYear_def)
  have m: "0 \<le> MonthFromTime t" "MonthFromTime t \<le> 11"
    using month_table(1,2) [of "DayWithinYear t" "InLeapYear t"] r l
    by (simp_all add: MonthFromTime_def)
  then have "MonthFromTime t div 12 = 0" "MonthFromTime t mod 12 = MonthFromTime t"
    by simp_all
  then show ?thesis
    by (simp add: MakeDay_def DateFromTime_def DayWithinYear_def InLeapYear_def)
qed

lemma date_fields_range:
  "0 \<le> MonthFromTime t" "MonthFromTime t \<le> 11" "1 \<le> DateFromTime t"
  "DateFromTime t \<le> DaysInMonth (YearFromTime t) (MonthFromTime t)"
proof -
  note r = DayWithinYear_range [of t]
  have l: "InLeapYear t = 0 \<or> InLeapYear t = 1"
    using leapDays_cases by (simp add: InLeapYear_def)
  note tb = month_table [of "DayWithinYear t" "InLeapYear t"]
  show "0 \<le> MonthFromTime t" "MonthFromTime t \<le> 11"
    using tb(1,2) r l by (simp_all add: MonthFromTime_def)
  show "1 \<le> DateFromTime t"
    using tb(3) r l by (simp add: DateFromTime_def MonthFromTime_def)
  have "DateFromTime t \<le> (if MonthFromTime t = 1 then 28 + InLeapYear t
           else if MonthFromTime t \<in> {3, 5, 8, 10} then 30 else 31)"
    using tb(4) r l unfolding DateFromTime_def MonthFromTime_def by blast
  then show "DateFromTime t \<le> DaysInMonth (YearFromTime t) (MonthFromTime t)"
    by (auto simp add: DaysInMonth_def InLeapYear_def split: if_splits)
qed

lemma time_fields_range:
  "0 \<le> HourFromTime t" "HourFromTime t < 24" "0 \<le> MinFromTime t" "MinFromTime t < 60"
  "0 \<le> SecFromTime t" "SecFromTime t < 60" "0 \<le> msFromTime t" "msFromTime t < 1000"
  by (simp_all add: HourFromTime_def MinFromTime_def SecFromTime_def msFromTime_def)

lemma MakeTime_fields:
  "MakeTime (HourFromTime t) (MinFromTime t) (SecFromTime t) (msFromTime t) = TimeWithinDay t"
proof -
  define a b c e where "a = t div 1000" and "b = a div 60" and "c = b div 60" and "e = c div 24"
  have d1: "t div 60000 = b"
    using zdiv_zmult2_eq [of 60 t 1000] by (simp add: a_def b_def)
  have d2: "t div 3600000 = c"
    using zdiv_zmult2_eq [of 60 t 60000] d1 by (simp add: c_def)
  have d3: "t div 86400000 = e"
    using zdiv_zmult2_eq [of 24 t 3600000] d2 by (simp add: e_def)
  have t: "t = 1000 * a + t mod 1000" by (simp add: a_def)
  have a: "a = 60 * b + a mod 60" by (simp add: b_def)
  have b: "b = 60 * c + b mod 60" by (simp add: c_def)
  have c: "c = 24 * e + c mod 24" by (simp add: e_def)
  have "t mod 86400000 = t - 86400000 * e"
    using d3 by (simp add: minus_mult_div_eq_mod [symmetric])
  moreover define ms s mi h where "ms = t mod 1000" and "s = a mod 60" and "mi = b mod 60" and "h = c mod 24"
  ultimately have "t mod 86400000 = h * 3600000 + mi * 60000 + s * 1000 + ms"
    using t a b c by simp
  then show ?thesis
    by (simp add: MakeTime_def HourFromTime_def MinFromTime_def SecFromTime_def msFromTime_def
        TimeWithinDay_def msPerDay_def d1 d2 a_def ms_def s_def mi_def h_def)
qed

lemma MakeDate_fields:
  "MakeDate (MakeDay (YearFromTime t) (MonthFromTime t) (DateFromTime t))
            (MakeTime (HourFromTime t) (MinFromTime t) (SecFromTime t) (msFromTime t)) = t"
  by (simp add: MakeDay_fields MakeTime_fields MakeDate_def Day_def TimeWithinDay_def)

subsection \<open>A date written by \<open>toISOString\<close> reads back\<close>

lemma Day_range:
  assumes "validTime t"
  shows "- 100000000 \<le> Day t" "Day t \<le> 100000000"
proof -
  have "t \<le> 8640000000000000" "- 8640000000000000 \<le> t"
    using assms by (simp_all add: validTime_def)
  then have "t div 86400000 \<le> 8640000000000000 div 86400000"
    "(- 8640000000000000) div 86400000 \<le> t div 86400000"
    by (intro zdiv_mono1; simp)+
  then show "- 100000000 \<le> Day t" "Day t \<le> 100000000"
    by (simp_all add: Day_def msPerDay_def)
qed

lemma YearFromTime_range:
  assumes "validTime t"
  shows "- 1000000 < YearFromTime t" "YearFromTime t < 1000000"
proof -
  note s = YearFromDay_spec [of "Day t"]
  note d = Day_range [OF assms]
  show "YearFromTime t < 1000000"
  proof (rule ccontr)
    assume "\<not> YearFromTime t < 1000000"
    then have "DayFromYear 1000000 \<le> DayFromYear (YearFromDay (Day t))"
      by (intro DayFromYear_mono) (simp add: YearFromTime_def)
    moreover have "100000000 < DayFromYear 1000000" by (simp add: DayFromYear_def)
    ultimately show False using s d by simp
  qed
  show "- 1000000 < YearFromTime t"
  proof (rule ccontr)
    assume "\<not> - 1000000 < YearFromTime t"
    then have "DayFromYear (YearFromDay (Day t) + 1) \<le> DayFromYear (- 999999)"
      by (intro DayFromYear_mono) (simp add: YearFromTime_def)
    moreover have "DayFromYear (- 999999) < - 100000000" by (simp add: DayFromYear_def)
    ultimately show False using s d by simp
  qed
qed

lemma parseMonthDay_iso:
  assumes "m < 100" "d < 100"
  shows "parseMonthDay (CHR ''-'' # padNat 2 m @ CHR ''-'' # padNat 2 d @ r) = Some ((m, d), r)"
  using parseMonthDay_text [OF assms, of r] by simp

lemma parseTimeOfDay_iso:
  assumes "h < 100" "mi < 100" "s < 100" "ms < 1000"
  shows "parseTimeOfDay (padNat 2 h @ CHR '':'' # padNat 2 mi @ CHR '':'' # padNat 2 s
                          @ CHR ''.'' # padNat 3 ms @ r) = Some ((h, mi, s, ms), r)"
  using parseTimeOfDay_text [OF assms, of r] by simp

lemma parseISO_isoString:
  assumes "validTime t"
  shows "parseISO (isoString t) =
         Some \<lparr>f_year = YearFromTime t, f_month = nat (MonthFromTime t + 1),
               f_day = nat (DateFromTime t), f_hour = nat (HourFromTime t),
               f_minute = nat (MinFromTime t), f_second = nat (SecFromTime t),
               f_ms = nat (msFromTime t), f_offset = Offset 0\<rparr>"
proof -
  define M D h mi s ms where "M = nat (MonthFromTime t + 1)" and "D = nat (DateFromTime t)"
    and "h = nat (HourFromTime t)" and "mi = nat (MinFromTime t)"
    and "s = nat (SecFromTime t)" and "ms = nat (msFromTime t)"
  have e: "isoString t = yearText (YearFromTime t)
        @ (CHR ''-'' # padNat 2 M @ CHR ''-'' # padNat 2 D
        @ CHR ''T'' # (padNat 2 h @ CHR '':'' # padNat 2 mi @ CHR '':'' # padNat 2 s
        @ CHR ''.'' # padNat 3 ms @ ''Z''))"
    by (simp add: isoString_def isoDate_def isoTime_def M_def D_def h_def mi_def s_def ms_def
        del: padNat.simps)
  have dm: "DateFromTime t \<le> 31"
    using date_fields_range(4) [of t] leapDays_cases [of "YearFromTime t"]
    by (auto simp add: DaysInMonth_def split: if_splits)
  have b: "M < 100" "D < 100" "h < 100" "mi < 100" "s < 100" "ms < 1000"
    using date_fields_range(1,2,3) [of t] dm time_fields_range [of t]
    by (simp_all add: M_def D_def h_def mi_def s_def ms_def)
  show ?thesis
    unfolding e M_def [symmetric] D_def [symmetric] h_def [symmetric] mi_def [symmetric]
      s_def [symmetric] ms_def [symmetric]
    by (simp add: parseISO_def parseYear_yearText [OF YearFromTime_range [OF assms]]
        parseMonthDay_iso [OF b(1,2)] parseTimeOfDay_iso [OF b(3,4,5,6)] parseOffset_def
        del: padNat.simps)
qed

lemma Date_parse_isoString:
  assumes "validTime t"
  shows "Date_parse pf (isoString t) = Some t"
proof -
  let ?f = "\<lparr>f_year = YearFromTime t, f_month = nat (MonthFromTime t + 1),
               f_day = nat (DateFromTime t), f_hour = nat (HourFromTime t),
               f_minute = nat (MinFromTime t), f_second = nat (SecFromTime t),
               f_ms = nat (msFromTime t), f_offset = Offset 0\<rparr>"
  note dr = date_fields_range [of t]
  note tr = time_fields_range [of t]
  have m: "int (nat (MonthFromTime t + 1)) - 1 = MonthFromTime t" using dr by simp
  have d: "int (nat (DateFromTime t)) = DateFromTime t" using dr by simp
  have inr: "fieldsInRange ?f"
    using dr tr by (simp add: fieldsInRange_def m d) linarith
  have ft: "fieldsTime pf ?f = t"
    using dr tr by (simp add: fieldsTime_def MakeDate_fields)
  show ?thesis
    using assms by (simp add: Date_parse_def parseISO_isoString [OF assms] inr ft TimeClip_def validTime_def)
qed

section \<open>Lemmas about the filtered view\<close>

lemma str_includes_sublist: "str_includes hay needle = sublist needle hay"
  by (induction hay) (simp_all add: sublist_Cons_right)

lemma list_all2_lower:
  "list_all2 (\<lambda>a b. toLowerChar a = toLowerChar b) xs ys = (map toLowerChar xs = map toLowerChar ys)"
  by (induction xs arbitrary: ys) (auto simp add: list_all2_Cons1)

lemma nameMatches_iff: "nameMatches search r = containsIgnoringCase (name r) search"
proof -
  let ?f = "map toLowerChar"
  define k where "k = length search"
  have "sublist (?f search) (?f (name r))
        = (\<exists>i \<le> length (name r). ?f (take k (drop i (name r))) = ?f search)"
  proof
    assume "sublist (?f search) (?f (name r))"
    then obtain ps ss where e: "?f (name r) = ps @ ?f search @ ss"
      by (auto simp add: sublist_def)
    have "length ps \<le> length (?f (name r))" by (simp add: e)
    moreover have "take k (drop (length ps) (?f (name r))) = ?f search"
      by (simp add: e k_def)
    ultimately show "\<exists>i \<le> length (name r). ?f (take k (drop i (name r))) = ?f search"
      by (auto simp add: take_map drop_map intro!: exI [of _ "length ps"])
  next
    assume "\<exists>i \<le> length (name r). ?f (take k (drop i (name r))) = ?f search"
    then obtain i where i: "?f (take k (drop i (name r))) = ?f search" by blast
    have "name r = take i (name r) @ take k (drop i (name r)) @ drop k (drop i (name r))"
      by (metis append_take_drop_id)
    then have "?f (name r) = ?f (take i (name r)) @ ?f search @ ?f (drop k (drop i (name r)))"
      by (metis i map_append)
    then show "sublist (?f search) (?f (name r))"
      unfolding sublist_def by blast
  qed
  then show ?thesis
    by (simp add: nameMatches_def toLowerCase_def str_includes_sublist containsIgnoringCase_def
        list_all2_lower k_def)
qed

lemma filter_throwing_total:
  "\<forall>x \<in> set xs. p x = Inr (q x) \<Longrightarrow> filter_throwing p xs = Inr (filter q xs)"
  by (induction xs) simp_all

lemma filter_throwing_sound:
  "filter_throwing p xs = Inr ys \<Longrightarrow> set ys \<subseteq> {x \<in> set xs. p x = Inr True}"
proof (induction xs arbitrary: ys)
  case Nil
  then show ?case by simp
next
  case (Cons x xs)
  from Cons.prems obtain b zs where px: "p x = Inr b" and r: "filter_throwing p xs = Inr zs"
    and ys: "ys = (if b then x # zs else zs)"
    by (auto split: sum.splits)
  from Cons.IH [OF r] show ?case using px ys by auto
qed

lemma padNat_no_T: "CHR ''T'' \<notin> set (padNat n k)"
  using padNat_digits [of n k] by (auto simp add: list_all_iff isDigit_def)

lemma isoDate_no_T: "CHR ''T'' \<notin> set (isoDate t)"
  by (simp add: isoDate_def yearText_def padNat_no_T del: padNat.simps)

lemma split_on_first: "sep \<notin> set a \<Longrightarrow> split_on sep (a @ sep # b) = a # split_on sep b"
  by (induction a) auto

lemma split_isoString: "split_on (CHR ''T'') (isoString t) = isoDate t # split_on (CHR ''T'') (isoTime t @ ''Z'')"
  using split_on_first [OF isoDate_no_T, of t "isoTime t @ ''Z''"] by (simp add: isoString_def)

lemma dateMatches_time:
  "dateMatches pf day r = (case Date_new pf (date r) of
       None \<Rightarrow> Inl (JsError ''RangeError'' ''Invalid time value'')
     | Some t \<Rightarrow> Inr (isoDate t = day))"
  by (simp add: dateMatches_def toISOString_def split_isoString split: option.splits)

lemma positive_compareDates:
  "Date_new pf (date a) = Some ta \<Longrightarrow> Date_new pf (date b) = Some tb
   \<Longrightarrow> positive (compareDates pf a b) = (ta < tb)"
  by (simp add: positive_def compareDates_def getTime_def)

lemma set_insert_by: "set (insert_by cmp x ys) = insert x (set ys)"
  by (induction ys) auto

lemma set_array_sort: "set (array_sort cmp xs) = set xs"
  by (induction xs) (simp_all add: array_sort_def set_insert_by)

lemma sorted_insert_by:
  assumes "\<forall>y \<in> set ys. positive (cmp x y) = (key x < key y)"
    and "sorted_wrt (\<lambda>a b. key b \<le> (key a :: int)) ys"
  shows "sorted_wrt (\<lambda>a b. key b \<le> key a) (insert_by cmp x ys)"
  using assms
proof (induction ys)
  case Nil
  show ?case by simp
next
  case (Cons y ys)
  show ?case
  proof (cases "positive (cmp x y)")
    case True
    then have "key x < key y" using Cons.prems(1) by simp
    then show ?thesis
      using True Cons by (auto simp add: set_insert_by)
  next
    case False
    then have "key y \<le> key x" using Cons.prems(1) by simp
    then show ?thesis
      using False Cons.prems(2) by auto
  qed
qed

lemma sorted_array_sort:
  assumes "\<forall>x \<in> set xs. \<forall>y \<in> set xs. positive (cmp x y) = (key x < key y)"
  shows "sorted_wrt (\<lambda>a b. key b \<le> (key a :: int)) (array_sort cmp xs)"
  using assms
proof (induction xs)
  case Nil
  show ?case by (simp add: array_sort_def)
next
  case (Cons x xs)
  have "sorted_wrt (\<lambda>a b. key b \<le> key a) (array_sort cmp xs)"
    using Cons by simp
  moreover have "\<forall>y \<in> set (array_sort cmp xs). positive (cmp x y) = (key x < key y)"
    using Cons.prems by (simp add: set_array_sort)
  ultimately have "sorted_wrt (\<lambda>a b. key b \<le> key a) (insert_by cmp x (array_sort cmp xs))"
    by (rule sorted_insert_by [rotated])
  then show ?case by (simp add: array_sort_def)
qed

lemma sorted_by_date:
  assumes "\<forall>r \<in> set xs. Date_new pf (date r) \<noteq> None"
  shows "sorted_wrt (notOlder pf) (array_sort (compareDates pf) xs)"
proof -
  define key where "key r = the (Date_new pf (date r))" for r :: ProductRecord
  have v: "Date_new pf (date r) = Some (key r)" if "r \<in> set xs" for r
    using assms that by (auto simp add: key_def)
  have "\<forall>x \<in> set xs. \<forall>y \<in> set xs. positive (compareDates pf x y) = (key x < key y)"
    using positive_compareDates v by blast
  then have "sorted_wrt (\<lambda>a b. key b \<le> key a) (array_sort (compareDates pf) xs)"
    by (rule sorted_array_sort)
  moreover have "notOlder pf a b = (key b \<le> key a)"
    if "a \<in> set (array_sort (compareDates pf) xs)" "b \<in> set (array_sort (compareDates pf) xs)" for a b
    using that v by (simp add: notOlder_def set_array_sort)
  ultimately show ?thesis
    by (simp add: sorted_wrt_iff_nth_less)
qed

section \<open>Lemmas about storage\<close>

lemma jsonNumber_numberJson: "isFinite n \<Longrightarrow> jsonNumber (numberJson n) = Some n"
  by (cases n) (simp_all add: jsonNumber_def numberJson_def)

lemma jsonLocation_locationJson: "finiteLocation l \<Longrightarrow> jsonLocation (locationJson l) = Some l"
  by (cases l) (simp_all add: finiteLocation_def jsonLocation_def locationJson_def property_def
      jsonNumber_numberJson)

lemma jsonRecord_recordJson: "validRecord r \<Longrightarrow> jsonRecord (recordJson r) = Some r"
  by (simp add: validRecord_def jsonRecord_def recordJson_def property_def jsonString_def
      jsonNumber_numberJson jsonLocation_locationJson)

lemma those_jsonRecord:
  "list_all validRecord rs \<Longrightarrow> those (map (jsonRecord \<circ> recordJson) rs) = Some rs"
  by (induction rs) (simp_all add: jsonRecord_recordJson)

lemma jsonRecords_stringify:
  "list_all validRecord rs \<Longrightarrow> JSON_parse (JSON_stringify rs) = Inr (JArray (map recordJson rs))
     \<and> jsonRecords (JArray (map recordJson rs)) = Some rs"
  by (simp add: JSON_parse_def JSON_stringify_def jsonRecords_def those_jsonRecord)

lemma nan_price_not_reloaded:
  "jsonRecords (JArray (map recordJson [milk\<lparr>price := NaN\<rparr>])) = None"
  by code_simp

section \<open>Lemmas about the handlers\<close>

lemma delete_length:
  "length (records (handleDeleteRecord i s)) + length (filter (\<lambda>r. id_p r = i) (records s)) = length (records s)"
  unfolding handleDeleteRecord_def
  using sum_length_filter_compl [of "\<lambda>r. id_p r = i" "records s"] by (simp add: add.commute)

lemma distinct_ids_count:
  "distinct (map id_p rs) \<Longrightarrow> length (filter (\<lambda>r. id_p r = i) rs) = (if i \<in> set (map id_p rs) then 1 else 0)"
  by (induction rs) (auto simp add: image_iff)

lemma scale10_nonneg: "0 \<le> q \<Longrightarrow> 0 \<le> scale10 q e"
  by (simp add: scale10_def)

lemma parseFloat_nonneg:
  assumes "\<not> leadingMinus s" "parseFloat s \<noteq> NaN"
  shows "nonNegative (parseFloat s)"
proof -
  define t where "t = dropWhile isWhiteSpace s"
  have neg: "\<not> (t \<noteq> [] \<and> hd t = CHR ''-'')"
    using assms(1) by (cases t) (simp_all add: leadingMinus_def t_def [symmetric])
  have m: "0 \<le> rat_of_nat n / 10 ^ k" for n k by simp
  show ?thesis
    using assms(2) neg unfolding parseFloat_def t_def [symmetric] Let_def
    by (auto simp add: scale10_nonneg m split: if_splits)
qed


lemma pow2_powi: "pow2 e = 2 powi e"
proof (cases "0 \<le> e")
  case True
  then show ?thesis by (simp add: pow2_def power_int_def)
next
  case False
  have "1 / (2::rat) ^ nat (- e) = inverse 2 ^ nat (- e)"
    by (simp add: power_one_over inverse_eq_divide)
  then show ?thesis using False by (simp add: pow2_def power_int_def)
qed




lemma pow2_succ: "pow2 (e + 1) = 2 * pow2 e"
  by (simp add: pow2_powi power_int_add)










lemma records_resetAddForm: "records (resetAddForm s) = records s"
  by (simp add: resetAddForm_def)

lemma records_handleFileChange: "records (handleFileChange ex f s) = records s"
  by (simp add: handleFileChange_def failedProcessing_def records_resetAddForm Let_def
      split: option.splits sum.splits)

lemma records_handleGetLocation: "records (handleGetLocation g s) = records s"
  by (simp add: handleGetLocation_def split: geolocation.splits)

lemma records_handleAnalyze: "records (fst (handleAnalyze sv s)) = records s"
  by (simp add: handleAnalyze_def Let_def split: sum.splits)

lemma records_handleAddRecord:
  "records (handleAddRecord env form s) = records s
   \<or> (\<exists>img. records (handleAddRecord env form s) = newRecord env form img (userLocation s) # records s)"
  by (auto simp add: handleAddRecord_def records_resetAddForm split: option.splits)

lemma reachable_dates:
  "reachableBy guard s \<Longrightarrow> \<forall>r \<in> set (records s). \<exists>t. validTime t \<and> date r = isoString t"
proof (induction rule: reachableBy.induct)
  case start
  show ?case by (simp add: initialState_def)
next
  case (addRecord s env form)
  from records_handleAddRecord [of env form s] show ?case
  proof
    assume "records (handleAddRecord env form s) = records s"
    then show ?thesis using addRecord.IH by simp
  next
    assume "\<exists>img. records (handleAddRecord env form s) = newRecord env form img (userLocation s) # records s"
    then obtain img where "records (handleAddRecord env form s) = newRecord env form img (userLocation s) # records s"
      by blast
    moreover have "\<exists>t. validTime t \<and> date (newRecord env form img (userLocation s)) = isoString t"
      using addRecord.hyps(3) by (auto simp add: newRecord_def)
    ultimately show ?thesis using addRecord.IH by simp
  qed
next
  case (deleteRecord s i)
  then show ?case by (simp add: handleDeleteRecord_def)
qed (simp_all add: records_handleFileChange records_handleGetLocation records_handleAnalyze)

lemma reachable_dates_valid:
  "reachableBy guard s \<Longrightarrow> list_all (\<lambda>r. Date_new pf (date r) \<noteq> None) (records s)"
proof -
  assume "reachableBy guard s"
  from reachable_dates [OF this]
  have "\<forall>r \<in> set (records s). \<exists>t. validTime t \<and> date r = isoString t" .
  then have "\<forall>r \<in> set (records s). Date_new pf (date r) \<noteq> None"
    using Date_parse_isoString [of _ pf] by (fastforce simp add: Date_new_def)
  then show ?thesis by (simp add: list_all_iff)
qed

lemma length_rest: "length (isoString t) = length (yearText (YearFromTime t)) + 20"
  by (simp add: isoString_def isoDate_def isoTime_def length_padNat del: padNat.simps)

lemma yearText_shape:
  "(0 \<le> y \<and> y \<le> 9999 \<longrightarrow> length (yearText y) = 4 \<and> isDigit (hd (yearText y)))
   \<and> (\<not> (0 \<le> y \<and> y \<le> 9999) \<longrightarrow> length (yearText y) = 7 \<and> \<not> isDigit (hd (yearText y)))"
proof -
  have "padNat 4 k \<noteq> []" for k using length_padNat [of 4 k] by auto
  then have "isDigit (hd (padNat 4 k))" for k
    using padNat_digits [of 4 k] by (cases "padNat 4 k") simp_all
  then show ?thesis
    by (simp add: yearText_def length_padNat isDigit_def del: padNat.simps)
qed

lemma hd_isoString: "hd (isoString t @ x) = hd (yearText (YearFromTime t))"
proof -
  have "yearText (YearFromTime t) \<noteq> []"
    using yearText_shape [of "YearFromTime t"] by auto
  then show ?thesis by (simp add: isoString_def isoDate_def)
qed

lemma isoString_prefix_free:
  assumes "validTime t" "validTime u" "isoString t @ x = isoString u @ y"
  shows "t = u \<and> x = y"
proof -
  have "hd (yearText (YearFromTime t)) = hd (yearText (YearFromTime u))"
    using assms(3) hd_isoString [of t x] hd_isoString [of u y] by simp
  then have "length (yearText (YearFromTime t)) = length (yearText (YearFromTime u))"
    using yearText_shape [of "YearFromTime t"] yearText_shape [of "YearFromTime u"] by metis
  then have "length (isoString t) = length (isoString u)" by (simp add: length_rest)
  then have e: "isoString t = isoString u" "x = y" using assms(3) by simp_all
  have "Some t = Date_parse utcP (isoString t)" for utcP
    using Date_parse_isoString [OF assms(1)] by simp
  then have "Some t = Some u" using Date_parse_isoString [OF assms(2)] e(1) by metis
  then show ?thesis using e(2) by simp
qed

lemma newRecord_id_inj:
  assumes "validTime (clockForId e1)" "validTime (clockForId e2)"
    and "id_p (newRecord e1 f1 i1 l1) = id_p (newRecord e2 f2 i2 l2)"
  shows "clockForId e1 = clockForId e2 \<and> randomText e1 = randomText e2"
  using isoString_prefix_free [OF assms(1,2), of "''-'' @ randomText e1" "''-'' @ randomText e2"] assms(3)
  by (simp add: newRecord_def)

lemma reach_scanned: "reachableBy g s \<Longrightarrow> reachableBy g (scanned s)"
  unfolding scanned_def by (rule reachableBy.fileChange)

lemma oneAdd_record:
  "records oneAddState = [\<lparr> id_p = ''2024-01-01T10:00:00.000Z-0.5'', imageUrl = ''data:image/jpeg;base64,AAAA'',
      name = ''Milk'', price = Finite (5 / 2), date = ''2024-01-01T10:00:00.001Z'', location = None \<rparr>]"
  by code_simp

lemma Date_parse_namesOffset:
  "namesOffset s \<Longrightarrow> Date_parse pf s = Date_parse pf' s"
  by (auto simp add: namesOffset_def Date_parse_def fieldsTime_def Let_def
      split: option.splits utc_offset.splits)

lemma namesOffset_isoString:
  assumes "validTime t"
  shows "namesOffset (isoString t)"
proof -
  note dr = date_fields_range [of t]
  note tr = time_fields_range [of t]
  have m: "int (nat (MonthFromTime t + 1)) - 1 = MonthFromTime t" using dr by simp
  have d: "int (nat (DateFromTime t)) = DateFromTime t" using dr by simp
  have "fieldsInRange \<lparr>f_year = YearFromTime t, f_month = nat (MonthFromTime t + 1),
               f_day = nat (DateFromTime t), f_hour = nat (HourFromTime t),
               f_minute = nat (MinFromTime t), f_second = nat (SecFromTime t),
               f_ms = nat (msFromTime t), f_offset = Offset 0\<rparr>"
    using dr tr by (simp add: fieldsInRange_def m d) linarith
  then show ?thesis
    by (simp add: namesOffset_def parseISO_isoString [OF assms])
qed

lemma handleAnalyze_calls:
  "truthy (trim (analysisQuery s))
   \<Longrightarrow> snd (handleAnalyze service s) = [(analysisQuery s, records s)]"
  by (simp add: handleAnalyze_def Let_def)

section \<open>Properties\<close>

subsection \<open>The filtered view\<close>

text \<open>
  C1. For every record collection and every combination of the two filter inputs,
  every record of the view that the effect computes is a record of the collection and
  satisfies each active predicate: its name contains the search string
  case-insensitively, and its date, truncated to the calendar day, equals the date
  filter. When the dates of the collection are valid, the effect does compute a view,
  and the view is sorted by date descending.
\<close>

theorem filteredView_sound:
  "(\<forall>out. filteredView pf recs search day = Inr out \<longrightarrow>
      (\<forall>r \<in> set out. r \<in> set recs
         \<and> (truthy search \<longrightarrow> containsIgnoringCase (name r) search)
         \<and> (truthy day \<longrightarrow> (\<exists>t. Date_new pf (date r) = Some t \<and> isoDate t = day))))
   \<and> (list_all (\<lambda>r. Date_new pf (date r) \<noteq> None) recs \<longrightarrow>
        (\<exists>out. filteredView pf recs search day = Inr out \<and> sorted_wrt (notOlder pf) out))"
proof (intro conjI allI impI)
  fix out
  assume v: "filteredView pf recs search day = Inr out"
  define temp1 where "temp1 = (if truthy search then filter (nameMatches search) recs else recs)"
  from v obtain temp2
    where t2: "(if truthy day then filter_throwing (dateMatches pf day) temp1 else Inr temp1) = Inr temp2"
      and out: "out = array_sort (compareDates pf) temp2"
    by (auto simp add: filteredView_def temp1_def [symmetric] split: sum.splits)
  have s2: "set temp2 \<subseteq> set temp1"
    and d: "truthy day \<longrightarrow> (\<forall>r \<in> set temp2. dateMatches pf day r = Inr True)"
    using t2 filter_throwing_sound [of "dateMatches pf day" temp1 temp2]
    by (auto split: if_splits)
  show "\<forall>r \<in> set out. r \<in> set recs
         \<and> (truthy search \<longrightarrow> containsIgnoringCase (name r) search)
         \<and> (truthy day \<longrightarrow> (\<exists>t. Date_new pf (date r) = Some t \<and> isoDate t = day))"
  proof
    fix r
    assume "r \<in> set out"
    then have r2: "r \<in> set temp2" by (simp add: out set_array_sort)
    then have r1: "r \<in> set temp1" using s2 by blast
    have a: "r \<in> set recs" using r1 by (auto simp add: temp1_def split: if_splits)
    have b: "truthy search \<longrightarrow> containsIgnoringCase (name r) search"
      using r1 by (auto simp add: temp1_def nameMatches_iff)
    have c: "truthy day \<longrightarrow> (\<exists>t. Date_new pf (date r) = Some t \<and> isoDate t = day)"
    proof
      assume "truthy day"
      then have "dateMatches pf day r = Inr True" using d r2 by blast
      then show "\<exists>t. Date_new pf (date r) = Some t \<and> isoDate t = day"
        by (auto simp add: dateMatches_time split: option.splits)
    qed
    from a b c show "r \<in> set recs
         \<and> (truthy search \<longrightarrow> containsIgnoringCase (name r) search)
         \<and> (truthy day \<longrightarrow> (\<exists>t. Date_new pf (date r) = Some t \<and> isoDate t = day))"
      by blast
  qed
next
  assume "list_all (\<lambda>r. Date_new pf (date r) \<noteq> None) recs"
  then have valid: "\<forall>r \<in> set recs. Date_new pf (date r) \<noteq> None"
    by (simp add: list_all_iff)
  define temp1 where "temp1 = (if truthy search then filter (nameMatches search) recs else recs)"
  define q where "q r = (isoDate (the (Date_new pf (date r))) = day)" for r :: ProductRecord
  define temp2 where "temp2 = (if truthy day then filter q temp1 else temp1)"
  have s1: "set temp1 \<subseteq> set recs" by (auto simp add: temp1_def)
  have s2: "set temp2 \<subseteq> set temp1" by (auto simp add: temp2_def)
  have "\<forall>r \<in> set temp1. dateMatches pf day r = Inr (q r)"
    using valid s1 by (fastforce simp add: dateMatches_time q_def split: option.splits)
  then have ft: "filter_throwing (dateMatches pf day) temp1 = Inr (filter q temp1)"
    by (rule filter_throwing_total)
  have out: "filteredView pf recs search day = Inr (array_sort (compareDates pf) temp2)"
    by (simp add: filteredView_def temp1_def [symmetric] ft temp2_def)
  have "\<forall>r \<in> set temp2. Date_new pf (date r) \<noteq> None"
    using valid s1 s2 by blast
  then have "sorted_wrt (notOlder pf) (array_sort (compareDates pf) temp2)"
    by (rule sorted_by_date)
  then show "\<exists>out. filteredView pf recs search day = Inr out \<and> sorted_wrt (notOlder pf) out"
    using out by blast
qed

theorem filteredView_sound_witness:
  "filteredView utcPlatform [milk, bread] [] [] = Inr [bread, milk]
   \<and> filteredView utcPlatform [milk, bread] ''mil'' ''2024-01-01'' = Inr [milk]
   \<and> list_all (\<lambda>r. Date_new utcPlatform (date r) \<noteq> None) [milk, bread]
   \<and> containsIgnoringCase (name milk) ''mil''
   \<and> (\<exists>out. filteredView utcPlatform [milk, bread] ''mil'' ''2024-01-01'' = Inr out
          \<and> sorted_wrt (notOlder utcPlatform) out)"
proof -
  have h: "list_all (\<lambda>r. Date_new utcPlatform (date r) \<noteq> None) [milk, bread]"
    by code_simp
  have a: "filteredView utcPlatform [milk, bread] [] [] = Inr [bread, milk]"
    by code_simp
  have b: "filteredView utcPlatform [milk, bread] ''mil'' ''2024-01-01'' = Inr [milk]"
    by code_simp
  have t: "truthy ''mil''" by (simp add: truthy_def)
  note th = filteredView_sound [of utcPlatform "[milk, bread]" "''mil''" "''2024-01-01''"]
  have c: "containsIgnoringCase (name milk) ''mil''"
    using th b t by simp
  show ?thesis
    using h a b c th by blast
qed

text \<open>
  C9. For every store of arrays, every reference \<open>recs\<close> to an array of it and every
  filter input, the effect leaves every array that existed before as it was, elements
  and order, the record collection among them; what it passes to
  \<open>setFilteredRecords\<close> is an array created by the effect, whose content is the
  filtered view.
\<close>

theorem filterEffect_frame:
  assumes "recs < length h"
  shows "(case filterEffect pf h recs search day of
            (h', res) \<Rightarrow>
              take (length h) h' = h \<and> h' ! recs = h ! recs
              \<and> (case res of
                    Inl e \<Rightarrow> filteredView pf (h ! recs) search day = Inl e
                  | Inr out \<Rightarrow> out \<noteq> recs \<and> length h \<le> out \<and> out < length h'
                       \<and> filteredView pf (h ! recs) search day = Inr (h' ! out)))"
proof -
  define temp1 where "temp1 = (if truthy search then filter (nameMatches search) (h ! recs) else h ! recs)"
  show ?thesis
  proof (cases "truthy search")
    case True
    show ?thesis
    proof (cases "truthy day")
      case d: True
      show ?thesis
        using assms True d
        by (cases "filter_throwing (dateMatches pf day) (filter (nameMatches search) (h ! recs))")
           (simp_all add: filterEffect_def filteredView_def alloc_def nth_append Let_def)
    next
      case d: False
      show ?thesis
        using assms True d
        by (simp add: filterEffect_def filteredView_def alloc_def nth_append Let_def)
    qed
  next
    case False
    show ?thesis
    proof (cases "truthy day")
      case d: True
      show ?thesis
        using assms False d
        by (cases "filter_throwing (dateMatches pf day) (h ! recs)")
           (simp_all add: filterEffect_def filteredView_def alloc_def nth_append Let_def)
    next
      case d: False
      show ?thesis
        using assms False d
        by (simp add: filterEffect_def filteredView_def alloc_def nth_append Let_def)
    qed
  qed
qed

theorem filterEffect_frame_witness:
  "(0::nat) < length [[milk, bread]]
   \<and> filterEffect utcPlatform [[milk, bread]] 0 [] [] = ([[milk, bread], [bread, milk]], Inr 1)
   \<and> fst (filterEffect utcPlatform [[milk, bread]] 0 [] []) ! 0 = [milk, bread]"
proof -
  have l: "(0::nat) < length [[milk, bread]]" by simp
  have v: "filterEffect utcPlatform [[milk, bread]] 0 [] [] = ([[milk, bread], [bread, milk]], Inr 1)"
    by code_simp
  show ?thesis
    using l v filterEffect_frame [OF l, of utcPlatform "[]" "[]"] by simp
qed

text \<open>
  C10 (amended). For every record and every date filter, the predicate compares the
  UTC calendar day of the time value that \<open>new Date\<close> reads from the record's date
  with the filter. When the date text names its offset from UTC or is a date without a
  time, the time value and the match are the same on every platform, whatever its
  local time zone; every text that \<open>toISOString\<close> writes is such a text, and reads back
  as the time value it was written from.
\<close>

theorem dateMatches_utc:
  "dateMatches pf day r = (case Date_new pf (date r) of
       None \<Rightarrow> Inl (JsError ''RangeError'' ''Invalid time value'')
     | Some t \<Rightarrow> Inr (isoDate t = day))
   \<and> (namesOffset (date r) \<longrightarrow>
        Date_new pf (date r) = Date_new pf' (date r)
        \<and> dateMatches pf day r = dateMatches pf' day r)
   \<and> (validTime t \<and> date r = isoString t \<longrightarrow>
        namesOffset (date r) \<and> dateMatches pf day r = Inr (isoDate t = day))"
proof (intro conjI impI)
  show "dateMatches pf day r = (case Date_new pf (date r) of
       None \<Rightarrow> Inl (JsError ''RangeError'' ''Invalid time value'')
     | Some t \<Rightarrow> Inr (isoDate t = day))"
    by (rule dateMatches_time)
next
  assume n: "namesOffset (date r)"
  show e: "Date_new pf (date r) = Date_new pf' (date r)"
    using Date_parse_namesOffset [OF n] by (simp add: Date_new_def)
  show "dateMatches pf day r = dateMatches pf' day r"
    by (simp add: dateMatches_time e)
next
  assume a: "validTime t \<and> date r = isoString t"
  then show "namesOffset (date r)" using namesOffset_isoString by simp
  have "Date_new pf (date r) = Some t"
    using a Date_parse_isoString [of t pf] by (simp add: Date_new_def)
  then show "dateMatches pf day r = Inr (isoDate t = day)"
    by (simp add: dateMatches_time)
qed

theorem dateMatches_utc_witness:
  "namesOffset (date milk)
   \<and> dateMatches utcPlatform ''2024-01-01'' milk = Inr True
   \<and> dateMatches newYorkPlatform ''2024-01-01'' milk = Inr True
   \<and> validTime 1704103200001
   \<and> date (hd (records oneAddState)) = isoString 1704103200001
   \<and> namesOffset (date (hd (records oneAddState)))
   \<and> dateMatches newYorkPlatform ''2024-01-01'' (hd (records oneAddState)) = Inr True
   \<and> dateMatches newYorkPlatform ''2024-01-02'' (hd (records oneAddState)) = Inr False"
proof -
  have n: "namesOffset (date milk)" by code_simp
  have a: "dateMatches utcPlatform ''2024-01-01'' milk = Inr True" by code_simp
  have v: "validTime 1704103200001" by (simp add: validTime_def)
  have d: "date (hd (records oneAddState)) = isoString 1704103200001" by code_simp
  have i: "isoDate 1704103200001 = ''2024-01-01''" by code_simp
  note m = dateMatches_utc [of utcPlatform "''2024-01-01''" milk newYorkPlatform 0]
  note o1 = dateMatches_utc [of newYorkPlatform "''2024-01-01''" "hd (records oneAddState)"
      utcPlatform 1704103200001]
  note o2 = dateMatches_utc [of newYorkPlatform "''2024-01-02''" "hd (records oneAddState)"
      utcPlatform 1704103200001]
  from m n have "dateMatches utcPlatform ''2024-01-01'' milk
      = dateMatches newYorkPlatform ''2024-01-01'' milk"
    by blast
  then have b: "dateMatches newYorkPlatform ''2024-01-01'' milk = Inr True"
    using a by simp
  from o1 v d have c1: "namesOffset (date (hd (records oneAddState)))"
    and c2: "dateMatches newYorkPlatform ''2024-01-01'' (hd (records oneAddState))
             = Inr (isoDate 1704103200001 = ''2024-01-01'')"
    by blast+
  from o2 v d have c3: "dateMatches newYorkPlatform ''2024-01-02'' (hd (records oneAddState))
             = Inr (isoDate 1704103200001 = ''2024-01-02'')"
    by blast
  show ?thesis
    using n a b v d c1 c2 c3 by (simp add: i)
qed

text \<open>
  A date and time without an offset is read as local time: the same record matches a
  day in UTC and does not match it five hours west.
\<close>

theorem dateMatches_local_time_counterexample:
  "dateMatches utcPlatform ''2024-01-01'' (milk\<lparr>date := ''2024-01-01T23:30:00''\<rparr>) = Inr True
   \<and> dateMatches newYorkPlatform ''2024-01-01'' (milk\<lparr>date := ''2024-01-01T23:30:00''\<rparr>) = Inr False"
  by code_simp

subsection \<open>The record store\<close>

text \<open>
  C2 (amended). For every record collection and every id, after \<open>handleDeleteRecord\<close>
  no record has that id; the size decreases by the number of records that had the id,
  which is exactly one when the ids of the collection are pairwise distinct and a
  record with that id existed; and the state is unchanged when no record had the id.
\<close>

theorem handleDeleteRecord_removes:
  "(\<forall>r \<in> set (records (handleDeleteRecord i s)). id_p r \<noteq> i)
   \<and> length (records (handleDeleteRecord i s))
       = length (records s) - length (filter (\<lambda>r. id_p r = i) (records s))
   \<and> (distinct (map id_p (records s)) \<and> i \<in> set (map id_p (records s))
        \<longrightarrow> length (records (handleDeleteRecord i s)) = length (records s) - 1)
   \<and> (i \<notin> set (map id_p (records s)) \<longrightarrow> handleDeleteRecord i s = s)"
proof -
  have a: "\<forall>r \<in> set (records (handleDeleteRecord i s)). id_p r \<noteq> i"
    by (simp add: handleDeleteRecord_def)
  have b: "length (records (handleDeleteRecord i s))
       = length (records s) - length (filter (\<lambda>r. id_p r = i) (records s))"
    using delete_length [of i s] by simp
  have c: "distinct (map id_p (records s)) \<and> i \<in> set (map id_p (records s))
        \<longrightarrow> length (records (handleDeleteRecord i s)) = length (records s) - 1"
    using b distinct_ids_count [of "records s" i] by simp
  have "i \<notin> set (map id_p (records s)) \<Longrightarrow> filter (\<lambda>r. id_p r \<noteq> i) (records s) = records s"
    by (simp add: filter_id_conv image_iff) blast
  then have d: "i \<notin> set (map id_p (records s)) \<longrightarrow> handleDeleteRecord i s = s"
    by (simp add: handleDeleteRecord_def)
  from a b c d show ?thesis by blast
qed

theorem handleDeleteRecord_removes_witness:
  "distinct (map id_p (records (initialState\<lparr>records := [bread, milk]\<rparr>)))
   \<and> id_p milk \<in> set (map id_p (records (initialState\<lparr>records := [bread, milk]\<rparr>)))
   \<and> records (handleDeleteRecord (id_p milk) (initialState\<lparr>records := [bread, milk]\<rparr>)) = [bread]
   \<and> length (records (handleDeleteRecord (id_p milk) (initialState\<lparr>records := [bread, milk]\<rparr>))) = 1"
proof -
  have d: "distinct (map id_p (records (initialState\<lparr>records := [bread, milk]\<rparr>)))"
    by code_simp
  have m: "id_p milk \<in> set (map id_p (records (initialState\<lparr>records := [bread, milk]\<rparr>)))"
    by simp
  have v: "records (handleDeleteRecord (id_p milk) (initialState\<lparr>records := [bread, milk]\<rparr>)) = [bread]"
    by code_simp
  show ?thesis
    using d m v handleDeleteRecord_removes [of "id_p milk" "initialState\<lparr>records := [bread, milk]\<rparr>"]
    by simp
qed

text \<open>
  The claim without the proviso fails on a state that two adds at the same clock
  reading and random text reach: both records have the id, and one delete removes two.
\<close>

theorem handleDeleteRecord_duplicate_counterexample:
  "length (records duplicateIdState) = 2
   \<and> id_p (hd (records duplicateIdState)) = ''2024-01-01T10:00:00.000Z-0.5''
   \<and> length (records (handleDeleteRecord ''2024-01-01T10:00:00.000Z-0.5'' duplicateIdState)) = 0"
  by code_simp

text \<open>
  C5 (amended). In every state reached from the initial state by the handlers, where
  each add generates an id that is not in the store yet, the ids of the records are
  pairwise distinct.
\<close>

theorem reachable_distinct_ids:
  "reachableBy freshId s \<Longrightarrow> distinct (map id_p (records s))"
proof (induction rule: reachableBy.induct)
  case start
  show ?case by (simp add: initialState_def)
next
  case (addRecord s env form)
  from records_handleAddRecord [of env form s] show ?case
  proof
    assume "records (handleAddRecord env form s) = records s"
    then show ?thesis using addRecord.IH by simp
  next
    assume "\<exists>img. records (handleAddRecord env form s) = newRecord env form img (userLocation s) # records s"
    then obtain img where "records (handleAddRecord env form s) = newRecord env form img (userLocation s) # records s"
      by blast
    moreover have "id_p (newRecord env form img (userLocation s)) \<notin> set (map id_p (records s))"
      using addRecord.hyps(4) by (simp add: freshId_def newRecord_def)
    ultimately show ?thesis using addRecord.IH by simp
  qed
next
  case (deleteRecord s i)
  then show ?case by (simp add: handleDeleteRecord_def distinct_map_filter)
qed (simp_all add: records_handleFileChange records_handleGetLocation records_handleAnalyze)

theorem reachable_distinct_ids_witness:
  "reachableBy freshId twoAddsState \<and> distinct (map id_p (records twoAddsState))"
proof -
  have v: "validTime (clockForId exampleEnv)" "validTime (clockForDate exampleEnv)"
    "validTime (clockForId laterEnv)" "validTime (clockForDate laterEnv)"
    by (simp_all add: validTime_def exampleEnv_def laterEnv_def)
  have f1: "freshId exampleEnv (scanned initialState)" by code_simp
  have f2: "freshId laterEnv (scanned oneAddState)" by code_simp
  have "reachableBy freshId oneAddState"
    unfolding oneAddState_def
    by (intro reachableBy.addRecord reach_scanned reachableBy.start v f1)
  then have r: "reachableBy freshId twoAddsState"
    unfolding twoAddsState_def
    by (intro reachableBy.addRecord reach_scanned v f2)
  show ?thesis using r reachable_distinct_ids [OF r] by simp
qed

text \<open>
  Without the proviso the ids can repeat: the handler makes the id from the clock and
  \<open>Math.random()\<close> and never looks at the store.
\<close>

theorem reachable_duplicate_ids_counterexample:
  "reachableBy anyAdd duplicateIdState \<and> \<not> distinct (map id_p (records duplicateIdState))"
proof -
  have v: "validTime (clockForId exampleEnv)" "validTime (clockForDate exampleEnv)"
    by (simp_all add: validTime_def exampleEnv_def)
  have "reachableBy anyAdd oneAddState"
    unfolding oneAddState_def
    by (intro reachableBy.addRecord reach_scanned reachableBy.start v) (simp add: anyAdd_def)
  then have "reachableBy anyAdd duplicateIdState"
    unfolding duplicateIdState_def
    by (intro reachableBy.addRecord reach_scanned v) (simp_all add: anyAdd_def)
  moreover have "\<not> distinct (map id_p (records duplicateIdState))"
    by code_simp
  ultimately show ?thesis by simp
qed

text \<open>
  C6 (amended). A record added by the add-record flow has as its price what
  \<open>parseFloat\<close> reads from the price field, unchecked; the price is non-negative when the
  text has no leading minus sign and is a number.
\<close>

theorem handleAddRecord_price:
  assumes "ocrResult s = Some ocr" "imagePreview s = Some img" "truthy img"
  shows "records (handleAddRecord env form s) = newRecord env form img (userLocation s) # records s
    \<and> price (newRecord env form img (userLocation s)) = parseFloat (priceField form)
    \<and> (\<not> leadingMinus (priceField form) \<and> parseFloat (priceField form) \<noteq> NaN
         \<longrightarrow> nonNegative (price (newRecord env form img (userLocation s))))"
  using assms parseFloat_nonneg [of "priceField form"]
  by (simp add: handleAddRecord_def resetAddForm_def newRecord_def)

theorem handleAddRecord_price_witness:
  "ocrResult (scanned initialState) = Some exampleOcr
   \<and> imagePreview (scanned initialState) = Some ''data:image/jpeg;base64,AAAA''
   \<and> truthy ''data:image/jpeg;base64,AAAA''
   \<and> \<not> leadingMinus (priceField exampleForm) \<and> parseFloat (priceField exampleForm) = Finite (5 / 2)
   \<and> price (hd (records (handleAddRecord exampleEnv exampleForm (scanned initialState)))) = Finite (5 / 2)
   \<and> nonNegative (price (hd (records (handleAddRecord exampleEnv exampleForm (scanned initialState)))))"
proof -
  have a: "ocrResult (scanned initialState) = Some exampleOcr" by code_simp
  have b: "imagePreview (scanned initialState) = Some ''data:image/jpeg;base64,AAAA''" by code_simp
  have c: "truthy ''data:image/jpeg;base64,AAAA''" by (simp add: truthy_def)
  have d: "\<not> leadingMinus (priceField exampleForm)" "parseFloat (priceField exampleForm) = Finite (5 / 2)"
    by code_simp+
  show ?thesis
    using a b c d handleAddRecord_price [OF a b c, of exampleEnv exampleForm] by simp
qed

text \<open>The price field \<open>-5\<close> is stored as the price \<open>-5\<close>.\<close>

theorem handleAddRecord_negative_price_counterexample:
  "records (handleAddRecord exampleEnv refundForm (scanned initialState)) \<noteq> []
   \<and> price (hd (records (handleAddRecord exampleEnv refundForm (scanned initialState)))) = Finite (- 5)
   \<and> \<not> nonNegative (price (hd (records (handleAddRecord exampleEnv refundForm (scanned initialState)))))"
  by code_simp

subsection \<open>Persistent storage\<close>

text \<open>
  C3. For every collection of valid records, a save that succeeds (nothing is caught,
  so nothing is logged) leaves the state as it was and the stored text the JSON of the
  collection, which reads back as the collection; and the load effect of a fresh
  start on that storage sets \<open>records\<close> to the collection that was saved.
\<close>

theorem save_then_load:
  assumes "list_all validRecord (records s)"
    and "saveEffect ls s = Inr (ls', s', [])"
  shows "s' = s
     \<and> items ls' ''shoppingHistory'' = Some (JSON_stringify (records s))
     \<and> (\<exists>j. JSON_parse (JSON_stringify (records s)) = Inr j \<and> jsonRecords j = Some (records s))
     \<and> loadEffect ls' initialState = Inr (Typed (initialState\<lparr>records := records s\<rparr>), [])"
proof -
  have ok: "accessible ls" "s' = s"
    "ls' = ls\<lparr>items := (items ls)(''shoppingHistory'' := Some (JSON_stringify (records s)))\<rparr>"
    using assms(2)
    by (auto simp add: saveEffect_def setItem_def try_catch_def split: if_splits)
  have it: "items ls' ''shoppingHistory'' = Some (JSON_stringify (records s))"
    by (simp add: ok(3))
  have acc: "accessible ls'" using ok(1) by (simp add: ok(3))
  have tr: "truthyPayload (JSON_stringify (records s))"
    by (simp add: truthyPayload_def JSON_stringify_def)
  note rt = jsonRecords_stringify [OF assms(1)]
  have ld: "loadEffect ls' initialState = Inr (Typed (initialState\<lparr>records := records s\<rparr>), [])"
    using rt acc
    by (simp add: loadEffect_def getItem_def it tr try_catch_def setRecordsParsed_def)
  from ok(2) it rt ld show ?thesis by blast
qed

theorem save_then_load_witness:
  "list_all validRecord (records (initialState\<lparr>records := [bread, milk]\<rparr>))
   \<and> saveEffect emptyStorage (initialState\<lparr>records := [bread, milk]\<rparr>)
       = Inr (emptyStorage\<lparr>items := (items emptyStorage)
                 (''shoppingHistory'' := Some (JSON_stringify [bread, milk]))\<rparr>,
              initialState\<lparr>records := [bread, milk]\<rparr>, [])
   \<and> loadEffect (emptyStorage\<lparr>items := (items emptyStorage)
                 (''shoppingHistory'' := Some (JSON_stringify [bread, milk]))\<rparr>) initialState
       = Inr (Typed (initialState\<lparr>records := [bread, milk]\<rparr>), [])"
proof -
  have v: "list_all validRecord (records (initialState\<lparr>records := [bread, milk]\<rparr>))"
    by (simp add: validRecord_def finiteLocation_def milk_def bread_def)
  have sv: "saveEffect emptyStorage (initialState\<lparr>records := [bread, milk]\<rparr>)
       = Inr (emptyStorage\<lparr>items := (items emptyStorage)
                 (''shoppingHistory'' := Some (JSON_stringify [bread, milk]))\<rparr>,
              initialState\<lparr>records := [bread, milk]\<rparr>, [])"
    by (simp add: saveEffect_def setItem_def try_catch_def emptyStorage_def)
  show ?thesis
    using v sv save_then_load [OF v sv] by simp
qed

text \<open>
  C8. For every storage and every stored text, no exception leaves the load effect;
  when reading the storage or parsing the text fails, the effect logs the error and
  leaves the state as it was, and the state of a fresh start has no records.
\<close>

theorem loadEffect_total:
  "(\<exists>out. loadEffect ls s = Inr out)
   \<and> ((\<exists>e. getItem ls ''shoppingHistory'' = Inl e)
       \<or> (\<exists>p e. getItem ls ''shoppingHistory'' = Inr (Some p) \<and> truthyPayload p
                  \<and> JSON_parse p = Inl e)
      \<longrightarrow> (\<exists>e. loadEffect ls s = Inr (Typed s, [(''Failed to load records from localStorage'', e)])))
   \<and> records initialState = []"
  by (auto simp add: loadEffect_def try_catch_def initialState_def split: sum.splits option.splits)

theorem loadEffect_total_witness:
  "getItem corruptStorage ''shoppingHistory'' = Inr (Some (OtherText ''[{oops''))
   \<and> truthyPayload (OtherText ''[{oops'')
   \<and> JSON_parse (OtherText ''[{oops'') = Inl (JsError ''SyntaxError'' ''Unexpected token'')
   \<and> loadEffect corruptStorage initialState
       = Inr (Typed initialState, [(''Failed to load records from localStorage'',
                                    JsError ''SyntaxError'' ''Unexpected token'')])"
proof -
  have a: "getItem corruptStorage ''shoppingHistory'' = Inr (Some (OtherText ''[{oops''))"
    by (simp add: getItem_def corruptStorage_def)
  have b: "truthyPayload (OtherText ''[{oops'')" by (simp add: truthyPayload_def truthy_def)
  have c: "JSON_parse (OtherText ''[{oops'') = Inl (JsError ''SyntaxError'' ''Unexpected token'')"
    by (simp add: JSON_parse_def)
  have d: "loadEffect corruptStorage initialState
       = Inr (Typed initialState, [(''Failed to load records from localStorage'',
                                    JsError ''SyntaxError'' ''Unexpected token'')])"
    by (simp add: loadEffect_def a b c try_catch_def)
  show ?thesis
    using a b c d loadEffect_total [of corruptStorage initialState] by simp
qed

subsection \<open>The image preprocessor\<close>



subsection \<open>Empty analysis query\<close>

text \<open>
  C7. For every analysis query that is empty after trimming white space, submitting the
  analysis form makes no call to the external service and leaves the whole application
  state as it was, whatever the service would have answered.
\<close>

theorem handleAnalyze_blank_query:
  "trim (analysisQuery s) = [] \<Longrightarrow> handleAnalyze service s = (s, [])"
  by (simp add: handleAnalyze_def truthy_def)

theorem handleAnalyze_blank_query_witness:
  "trim (analysisQuery (initialState\<lparr>analysisQuery := ''   ''\<rparr>)) = []
   \<and> handleAnalyze (\<lambda>q h. Inr ''answer'') (initialState\<lparr>analysisQuery := ''   ''\<rparr>)
       = (initialState\<lparr>analysisQuery := ''   ''\<rparr>, [])"
proof -
  have blank: "trim (analysisQuery (initialState\<lparr>analysisQuery := ''   ''\<rparr>)) = []"
    by (simp add: trim_def isWhiteSpace_def)
  show ?thesis
    using blank handleAnalyze_blank_query [OF blank, of "\<lambda>q h. Inr ''answer''"] by simp
qed

end
